theory Spec2Isabelle
  imports Complex_Main "HOL-Library.Monad_Syntax" "HOL-Library.AList"
begin

section \<open>Numbers\<close>

text \<open>
  A TypeScript \<open>number\<close> is modelled by a real. Where an operation of the source leaves
  the finite numbers (\<open>Math.pow\<close> yielding \<open>NaN\<close> or \<open>Infinity\<close>, a division by a zero
  divisor), the model returns \<open>None\<close> and does not follow the run further; a result
  \<open>Some r\<close> is the number the source returns. The purchase costs work on integers from
  their first floor on, and the hurry modifier total sums integer percentages; doubles
  compute these exactly below \<open>2^53\<close>, and they are modelled in the reals, the power being
  the real power. The interpolation of the correlation lookup works on fractions, where
  every operation of the source rounds: there each operation is followed by
  \<open>roundDouble\<close>.
\<close>

definition Math_floor :: "real \<Rightarrow> real" where
  "Math_floor x = of_int \<lfloor>x\<rfloor>"

abbreviation Math_max :: "real \<Rightarrow> real \<Rightarrow> real" where
  "Math_max a b \<equiv> max a b"

text \<open>
  \<open>Math.pow(b, e)\<close>: \<open>1\<close> for a zero exponent, the real power for a positive base, \<open>0\<close> for
  base \<open>0\<close> and a positive exponent, the signed integer power for a negative base and an
  integral exponent. Base \<open>0\<close> with a negative exponent is \<open>Infinity\<close>, a negative base
  with a fractional exponent is \<open>NaN\<close>: both are \<open>None\<close>.
\<close>

definition Math_pow :: "real \<Rightarrow> real \<Rightarrow> real option" where
  "Math_pow b e =
     (if e = 0 then Some 1
      else if 0 < b then Some (b powr e)
      else if b = 0 then (if 0 < e then Some 0 else None)
      else if e = of_int \<lfloor>e\<rfloor> then Some (b powi \<lfloor>e\<rfloor>)
      else None)"

text \<open>
  \<open>roundDouble\<close> is the rounding of IEEE 754 binary64 arithmetic: to the nearest number
  with a significand of 53 bits, a tie going to the even significand. The exponent range
  is not bounded, so overflow and subnormal numbers are not modelled.
\<close>

definition roundHalfEven :: "real \<Rightarrow> int" where
  "roundHalfEven y =
     (let f = \<lfloor>y\<rfloor>; d = y - of_int f
      in if d < 1 / 2 then f else if 1 / 2 < d then f + 1 else if even f then f else f + 1)"

definition roundDouble :: "real \<Rightarrow> real" where
  "roundDouble x =
     (if x = 0 then 0
      else (let e = \<lfloor>log 2 \<bar>x\<bar>\<rfloor>; ulp = 2 powr of_int (e - 52)
            in of_int (roundHalfEven (x / ulp)) * ulp))"

section \<open>Game context and modifier primitives (game-context.ts)\<close>

text \<open>
  The string-literal unions \<open>GameSpeedType\<close>, \<open>EraType\<close> and \<open>HandicapType\<close> are strings.
\<close>

type_synonym GameSpeedType = string
type_synonym EraType = string
type_synonym HandicapType = string

record GameSpeedInfo =
  type :: GameSpeedType
  growthPercent :: real
  trainPercent :: real
  constructPercent :: real
  createPercent :: real
  researchPercent :: real
  goldPercent :: real
  hurryPercent :: real
  culturePercent :: real
  faithPercent :: real

record EraInfo =
  id :: real
  type :: EraType
  name :: string
  growthPercent :: real
  trainPercent :: real
  constructPercent :: real
  researchPercent :: real

record HandicapInfo =
  id :: real
  type :: HandicapType
  name :: string
  aiProductionPercent :: real
  aiResearchPercent :: real
  aiGrowthPercent :: real
  playerResearchPercent :: real
  playerHappinessDefault :: real

record GameConstants =
  BASE_CITY_GROWTH_THRESHOLD :: real
  CITY_GROWTH_MULTIPLIER :: real
  CITY_GROWTH_EXPONENT :: real
  UNIT_PRODUCTION_PERCENT :: real
  GOLD_PURCHASE_VISIBLE_DIVISOR :: real
  GOLD_PURCHASE_MULTIPLIER :: real
  BUILDING_PRODUCTION_PERCENT :: real
  MAX_HIT_POINTS :: real
  COMBAT_DAMAGE :: real

record GameContext =
  gameSpeed :: GameSpeedInfo
  startEra :: EraInfo
  currentEra :: EraInfo
  handicap :: HandicapInfo
  constants :: GameConstants

definition GAMESPEED_STANDARD :: GameSpeedInfo where
  "GAMESPEED_STANDARD =
     \<lparr>GameSpeedInfo.type = ''GAMESPEED_STANDARD'',
      GameSpeedInfo.growthPercent = 100, GameSpeedInfo.trainPercent = 100,
      GameSpeedInfo.constructPercent = 100, createPercent = 100,
      GameSpeedInfo.researchPercent = 100, goldPercent = 100, hurryPercent = 100,
      culturePercent = 100, faithPercent = 100\<rparr>"

definition ERA_ANCIENT :: EraInfo where
  "ERA_ANCIENT =
     \<lparr>EraInfo.id = 0, EraInfo.type = ''ERA_ANCIENT'', EraInfo.name = ''Ancient Era'',
      EraInfo.growthPercent = 100, EraInfo.trainPercent = 100,
      EraInfo.constructPercent = 100, EraInfo.researchPercent = 100\<rparr>"

definition HANDICAP_PRINCE :: HandicapInfo where
  "HANDICAP_PRINCE =
     \<lparr>HandicapInfo.id = 3, HandicapInfo.type = ''HANDICAP_PRINCE'',
      HandicapInfo.name = ''Prince'',
      aiProductionPercent = 100, aiResearchPercent = 100, aiGrowthPercent = 100,
      playerResearchPercent = 100, playerHappinessDefault = 9\<rparr>"

definition GAME_CONSTANTS_VP_DEFAULTS :: GameConstants where
  "GAME_CONSTANTS_VP_DEFAULTS =
     \<lparr>BASE_CITY_GROWTH_THRESHOLD = 15, CITY_GROWTH_MULTIPLIER = 12,
      CITY_GROWTH_EXPONENT = 222 / 100, UNIT_PRODUCTION_PERCENT = 100,
      GameConstants.GOLD_PURCHASE_VISIBLE_DIVISOR = 10, GOLD_PURCHASE_MULTIPLIER = 250,
      BUILDING_PRODUCTION_PERCENT = 100, MAX_HIT_POINTS = 100, COMBAT_DAMAGE = 30\<rparr>"

definition createDefaultGameContext :: GameContext where
  "createDefaultGameContext =
     \<lparr>gameSpeed = GAMESPEED_STANDARD, startEra = ERA_ANCIENT,
      currentEra = ERA_ANCIENT, handicap = HANDICAP_PRINCE,
      GameContext.constants = GAME_CONSTANTS_VP_DEFAULTS\<rparr>"

definition applyModifier :: "real \<Rightarrow> real \<Rightarrow> real" where
  "applyModifier v modifier = Math_floor ((v * (100 + modifier)) / 100)"

section \<open>Modifier utilities (modifiers.ts)\<close>

text \<open>
  \<open>floorToDivisor(value, 0)\<close> is \<open>NaN\<close> in the source (an infinity or \<open>NaN\<close> times zero).
\<close>

definition floorToDivisor :: "real \<Rightarrow> real \<Rightarrow> real option" where
  "floorToDivisor v divisor =
     (if divisor = 0 then None else Some (Math_floor (v / divisor) * divisor))"

section \<open>Gold purchase formulas (gold-purchase.ts)\<close>

record GoldPurchaseConstants =
  GOLD_PURCHASE_GOLD_PER_PRODUCTION :: real
  HURRY_GOLD_PRODUCTION_EXPONENT :: real
  GOLD_PURCHASE_VISIBLE_DIVISOR :: real

definition GOLD_PURCHASE_CONSTANTS_VP :: GoldPurchaseConstants where
  "GOLD_PURCHASE_CONSTANTS_VP =
     \<lparr>GOLD_PURCHASE_GOLD_PER_PRODUCTION = 30,
      HURRY_GOLD_PRODUCTION_EXPONENT = 68 / 100,
      GoldPurchaseConstants.GOLD_PURCHASE_VISIBLE_DIVISOR = 10\<rparr>"

definition GOLD_PURCHASE_CONSTANTS_CP :: GoldPurchaseConstants where
  "GOLD_PURCHASE_CONSTANTS_CP =
     \<lparr>GOLD_PURCHASE_GOLD_PER_PRODUCTION = 30,
      HURRY_GOLD_PRODUCTION_EXPONENT = 75 / 100,
      GoldPurchaseConstants.GOLD_PURCHASE_VISIBLE_DIVISOR = 10\<rparr>"

definition getPurchaseCostFromProduction ::
  "real \<Rightarrow> GameContext \<Rightarrow> real \<Rightarrow> GoldPurchaseConstants \<Rightarrow> real option" where
  "getPurchaseCostFromProduction = (\<lambda>production ctx hurryModifier constants.
      if production \<le> 0 then Some 0
      else do {
        let purchaseCostBase = production * GOLD_PURCHASE_GOLD_PER_PRODUCTION constants;
        pw \<leftarrow> Math_pow purchaseCostBase (HURRY_GOLD_PRODUCTION_EXPONENT constants);
        let purchaseCost = Math_floor pw;
        let purchaseCost =
          (if hurryModifier \<noteq> 0
           then Math_floor ((purchaseCost * Math_max 0 (100 + hurryModifier)) / 100)
           else purchaseCost);
        let purchaseCost = Math_floor ((purchaseCost * hurryPercent (gameSpeed ctx)) / 100);
        Some (Math_max 0 purchaseCost)
      })"

text \<open>
  Where a parameter of the source has the name of a record field (\<open>constants\<close>,
  \<open>hurryModifier\<close>), the function is written as a \<open>\<lambda>\<close>-abstraction, which keeps the name.

  An options object: every field is optional, and the destructuring of the source puts a
  default in place of an absent one.
\<close>

record UnitPurchaseCostOptions =
  hurryCostModifier :: "real option"
  playerUnitPurchaseMod :: "real option"
  hurryModifier :: "real option"
  techProgress :: "real option"
  enableVPAdjustments :: "bool option"
  constants :: "GoldPurchaseConstants option"

definition orDefault :: "'a option \<Rightarrow> 'a \<Rightarrow> 'a" where
  "orDefault v d = (case v of None \<Rightarrow> d | Some x \<Rightarrow> x)"

definition getUnitPurchaseCost ::
  "real \<Rightarrow> GameContext \<Rightarrow> UnitPurchaseCostOptions \<Rightarrow> real option" where
  "getUnitPurchaseCost productionCost ctx options =
     (let hurryCostModifier = orDefault (hurryCostModifier options) 0;
          playerUnitPurchaseMod = orDefault (playerUnitPurchaseMod options) 0;
          hurryModifier = orDefault (UnitPurchaseCostOptions.hurryModifier options) 0;
          techProgress = orDefault (UnitPurchaseCostOptions.techProgress options) 0;
          enableVPAdjustments = orDefault (enableVPAdjustments options) True;
          constants =
            orDefault (UnitPurchaseCostOptions.constants options) GOLD_PURCHASE_CONSTANTS_VP
      in if hurryCostModifier = - 1 then Some (- 1)
         else do {
           cost \<leftarrow> getPurchaseCostFromProduction productionCost ctx hurryModifier constants;
           let cost =
             (if hurryCostModifier \<noteq> 0
              then Math_floor ((cost * Math_max 0 (100 + hurryCostModifier)) / 100)
              else cost);
           let cost =
             (if playerUnitPurchaseMod \<noteq> 0
              then Math_floor ((cost * Math_max 0 (100 + playerUnitPurchaseMod)) / 100)
              else cost);
           let cost =
             (if enableVPAdjustments
              then (let cost =
                      (if techProgress > 0
                       then (let techMod = Math_floor (techProgress / 2)
                             in Math_floor ((cost * (100 + techMod)) / 100))
                       else cost)
                    in Math_floor ((cost * 8) / 10))
              else cost);
           cost \<leftarrow> floorToDivisor cost (GOLD_PURCHASE_VISIBLE_DIVISOR constants);
           Some (Math_max (GOLD_PURCHASE_VISIBLE_DIVISOR constants) cost)
         })"

record BuildingPurchaseCostOptions =
  buildingHurryCostModifier :: "real option"
  playerBuildingPurchaseMod :: "real option"
  hurryModifier :: "real option"
  techProgress :: "real option"
  enableTechScaling :: "bool option"
  isInvestment :: "bool option"
  constants :: "GoldPurchaseConstants option"

definition getBuildingPurchaseCost ::
  "real \<Rightarrow> GameContext \<Rightarrow> BuildingPurchaseCostOptions \<Rightarrow> real option" where
  "getBuildingPurchaseCost productionCost ctx options =
     (let buildingHurryCostModifier = orDefault (buildingHurryCostModifier options) (- 20);
          playerBuildingPurchaseMod = orDefault (playerBuildingPurchaseMod options) 0;
          hurryModifier = orDefault (BuildingPurchaseCostOptions.hurryModifier options) 0;
          techProgress = orDefault (BuildingPurchaseCostOptions.techProgress options) 0;
          enableTechScaling = orDefault (enableTechScaling options) True;
          isInvestment = orDefault (isInvestment options) True;
          constants =
            orDefault (BuildingPurchaseCostOptions.constants options)
              GOLD_PURCHASE_CONSTANTS_VP
      in if buildingHurryCostModifier = - 1 then Some (- 1)
         else do {
           cost \<leftarrow> getPurchaseCostFromProduction productionCost ctx hurryModifier constants;
           let cost =
             (if buildingHurryCostModifier \<noteq> 0
              then Math_floor ((cost * (100 + buildingHurryCostModifier)) / 100)
              else cost);
           let cost =
             (if playerBuildingPurchaseMod \<noteq> 0
              then Math_floor ((cost * (100 + playerBuildingPurchaseMod)) / 100)
              else cost);
           let cost =
             (if enableTechScaling
              then (if techProgress > 0
                    then (let techMod = Math_floor (techProgress / 3)
                          in Math_floor ((cost * (100 + techMod)) / 100))
                    else cost)
              else cost);
           let cost = (if isInvestment then Math_floor ((cost * 6) / 10) else cost);
           cost \<leftarrow> floorToDivisor cost (GOLD_PURCHASE_VISIBLE_DIVISOR constants);
           Some (Math_max (GOLD_PURCHASE_VISIBLE_DIVISOR constants) cost)
         })"

definition getProjectPurchaseCost ::
  "real \<Rightarrow> GameContext \<Rightarrow> real \<Rightarrow> GoldPurchaseConstants \<Rightarrow> real option" where
  "getProjectPurchaseCost = (\<lambda>productionCost ctx hurryModifier constants.
     do {
       cost \<leftarrow> getPurchaseCostFromProduction productionCost ctx hurryModifier constants;
       cost \<leftarrow> floorToDivisor cost (GOLD_PURCHASE_VISIBLE_DIVISOR constants);
       Some (Math_max (GOLD_PURCHASE_VISIBLE_DIVISOR constants) cost)
     })"


definition emptyUnitOptions :: UnitPurchaseCostOptions where
  \<comment> \<open>the default argument \<open>{}\<close>\<close>
  "emptyUnitOptions =
     \<lparr>hurryCostModifier = None, playerUnitPurchaseMod = None,
      UnitPurchaseCostOptions.hurryModifier = None, UnitPurchaseCostOptions.techProgress = None,
      enableVPAdjustments = None, UnitPurchaseCostOptions.constants = None\<rparr>"

definition emptyBuildingOptions :: BuildingPurchaseCostOptions where
  \<comment> \<open>the default argument \<open>{}\<close>\<close>
  "emptyBuildingOptions =
     \<lparr>buildingHurryCostModifier = None, playerBuildingPurchaseMod = None,
      BuildingPurchaseCostOptions.hurryModifier = None,
      BuildingPurchaseCostOptions.techProgress = None,
      enableTechScaling = None, isInvestment = None,
      BuildingPurchaseCostOptions.constants = None\<rparr>"

subsection \<open>The stage sequences as the specification words them\<close>

text \<open>
  The three definitions below follow the specification (section 4.5), not the source; the
  stage-order theorems compare them with the functions of the source.
\<close>

definition spec_baseCostFromProduction ::
  "real \<Rightarrow> GameContext \<Rightarrow> real \<Rightarrow> GoldPurchaseConstants \<Rightarrow> real option" where
  "spec_baseCostFromProduction production context stacking cs =
     (if production \<le> 0 then Some 0
      else do {
        let base = production * GOLD_PURCHASE_GOLD_PER_PRODUCTION cs;
        pw \<leftarrow> Math_pow base (HURRY_GOLD_PRODUCTION_EXPONENT cs);
        let cost = Math_floor pw;
        let cost =
          (if stacking \<noteq> 0 then Math_floor (cost * max 0 (100 + stacking) / 100) else cost);
        let cost = Math_floor (cost * hurryPercent (gameSpeed context) / 100);
        Some (max 0 cost)
      })"

definition spec_unitPurchaseCost ::
  "real \<Rightarrow> GameContext \<Rightarrow> real \<Rightarrow> real \<Rightarrow> real \<Rightarrow> real \<Rightarrow> GoldPurchaseConstants
     \<Rightarrow> real option" where
  "spec_unitPurchaseCost production context perUnit playerWide stacking progress cs =
     do {
       cost \<leftarrow> spec_baseCostFromProduction production context stacking cs;
       let cost = Math_floor (cost * max 0 (100 + perUnit) / 100);
       let cost =
         (if playerWide = 0 then cost else Math_floor (cost * max 0 (100 + playerWide) / 100));
       let cost = applyModifier cost (Math_floor (progress / 2));
       let cost = Math_floor (cost * 8 / 10);
       cost \<leftarrow> floorToDivisor cost (GOLD_PURCHASE_VISIBLE_DIVISOR cs);
       Some (max (GOLD_PURCHASE_VISIBLE_DIVISOR cs) cost)
     }"

definition spec_buildingPurchaseCost ::
  "real \<Rightarrow> GameContext \<Rightarrow> real \<Rightarrow> real \<Rightarrow> real \<Rightarrow> real \<Rightarrow> bool \<Rightarrow> bool
     \<Rightarrow> GoldPurchaseConstants \<Rightarrow> real option" where
  "spec_buildingPurchaseCost production context intrinsic playerWide stacking progress
       scaling investment cs =
     do {
       cost \<leftarrow> spec_baseCostFromProduction production context stacking cs;
       let cost = Math_floor (cost * (100 + intrinsic) / 100);
       let cost = (if playerWide \<noteq> 0 then applyModifier cost playerWide else cost);
       let cost =
         (if scaling \<and> progress > 0 then applyModifier cost (Math_floor (progress / 3))
          else cost);
       let cost = (if investment then Math_floor (cost * 6 / 10) else cost);
       cost \<leftarrow> floorToDivisor cost (GOLD_PURCHASE_VISIBLE_DIVISOR cs);
       Some (max (GOLD_PURCHASE_VISIBLE_DIVISOR cs) cost)
     }"

section \<open>Hurry modifier sources (hurry-modifiers.ts)\<close>

text \<open>
  The scopes \<open>'local'\<close>, \<open>'empire'\<close> and the filter \<open>'all'\<close> are strings, compared with
  \<open>===\<close>. A \<open>Map\<close> is the list of its entries in insertion order, \<open>map.set\<close> is
  \<open>AList.update\<close> (a present key keeps its place, a new one goes to the end) and
  \<open>map.get\<close> is \<open>map_of\<close>. A \<open>Set\<close> of strings is a set.
\<close>

record HurryModifierSource =
  type :: string
  name :: string
  modifier :: real
  scope :: string
  description :: string

definition calculateTotalHurryModifier ::
  "string set \<Rightarrow> (string \<times> HurryModifierSource list) list \<Rightarrow> string \<Rightarrow> real" where
  "calculateTotalHurryModifier = (\<lambda>enabledSources allSources scope.
     fold (\<lambda>(sourceType, modifiers) total.
             if sourceType \<notin> enabledSources then total
             else fold (\<lambda>modifier total.
                          if scope = ''all'' \<or> HurryModifierSource.scope modifier = scope
                          then total + HurryModifierSource.modifier modifier
                          else total)
                    modifiers total)
       allSources 0)"

definition industryPolicy :: "string \<Rightarrow> string \<Rightarrow> HurryModifierSource" where
  \<comment> \<open>the common shape of the entries of \<open>INDUSTRY_POLICY_MODIFIERS\<close>\<close>
  "industryPolicy t n =
     \<lparr>HurryModifierSource.type = t, HurryModifierSource.name = n, modifier = - 5,
      scope = ''empire'', description = ''-5% gold cost for purchases/investments''\<rparr>"

definition INDUSTRY_POLICY_MODIFIERS :: "HurryModifierSource list" where
  "INDUSTRY_POLICY_MODIFIERS =
     [industryPolicy ''POLICY_COMMERCE'' ''Industry (Opener)'',
      industryPolicy ''POLICY_CARAVANS'' ''Free Trade'',
      industryPolicy ''POLICY_TRADE_UNIONS'' ''Division of Labor'',
      industryPolicy ''POLICY_ENTREPRENEURSHIP'' ''Entrepreneurship'',
      industryPolicy ''POLICY_MERCANTILISM'' ''Mercantilism'',
      industryPolicy ''POLICY_PROTECTIONISM'' ''Protectionism'',
      industryPolicy ''POLICY_COMMERCE_FINISHER'' ''Industry (Finisher)'']"

definition getIndustryPolicyModifiers :: "(string \<times> HurryModifierSource list) list" where
  "getIndustryPolicyModifiers =
     fold (\<lambda>policy m. AList.update (HurryModifierSource.type policy) [policy] m)
       INDUSTRY_POLICY_MODIFIERS []"

section \<open>Tech progress (tech-progress.ts)\<close>

text \<open>Of a \<open>Technology\<close> the functions read \<open>Type\<close>, \<open>Name\<close> and \<open>GridX\<close> only.\<close>

record Technology =
  Type :: string
  Name :: string
  GridX :: real

record TechProgressData =
  techToGridX :: "(string \<times> real) list"
  gridXToCumulativeTechs :: "(real \<times> real) list"
  totalTechs :: real
  maxGridX :: real
  gridXToTechNames :: "(real \<times> string list) list"

definition BUILDING_COST_BY_GRIDX :: "(real \<times> real) list" where
  "BUILDING_COST_BY_GRIDX =
     [(0, 65), (1, 65), (2, 110), (3, 150), (4, 200), (5, 300), (6, 350), (7, 500), (8, 600),
      (9, 1000), (10, 1250), (11, 1800), (12, 2000), (13, 2250), (14, 2250), (15, 2500),
      (16, 2750)]"

text \<open>\<open>get(k) || 0\<close>: an absent count, like a zero one, is \<open>0\<close>.\<close>

definition orZero :: "real option \<Rightarrow> real" where
  "orZero v = (case v of None \<Rightarrow> 0 | Some x \<Rightarrow> x)"

text \<open>
  The first pass of \<open>buildTechProgressData\<close>, one technology at a time, on the three maps
  and \<open>maxGridX\<close>. Pushing a name onto the array stored under a column is an update of
  that entry.
\<close>

definition countTech ::
  "Technology \<Rightarrow>
   (string \<times> real) list \<times> (real \<times> real) list \<times> (real \<times> string list) list \<times> real \<Rightarrow>
   (string \<times> real) list \<times> (real \<times> real) list \<times> (real \<times> string list) list \<times> real" where
  "countTech tech = (\<lambda>(techToGridX, techCountAtGridX, gridXToTechNames, maxGridX).
     let techToGridX = AList.update (Type tech) (GridX tech) techToGridX;
         techCountAtGridX =
           AList.update (GridX tech) (orZero (map_of techCountAtGridX (GridX tech)) + 1)
             techCountAtGridX;
         maxGridX = Math_max maxGridX (GridX tech);
         gridXToTechNames =
           (if map_of gridXToTechNames (GridX tech) = None
            then AList.update (GridX tech) [] gridXToTechNames else gridXToTechNames);
         gridXToTechNames =
           (case map_of gridXToTechNames (GridX tech) of
              None \<Rightarrow> gridXToTechNames
            | Some names \<Rightarrow> AList.update (GridX tech) (names @ [Name tech]) gridXToTechNames)
     in (techToGridX, techCountAtGridX, gridXToTechNames, maxGridX))"

text \<open>
  The second pass runs \<open>x\<close> over \<open>0, 1, 2, \<dots>\<close> while \<open>x \<le> maxGridX\<close>; \<open>maxGridX\<close> starts at
  \<open>0\<close> and only grows, so these are the naturals up to its floor.
\<close>

definition cumulativeTechs :: "(real \<times> real) list \<Rightarrow> real \<Rightarrow> (real \<times> real) list" where
  "cumulativeTechs = (\<lambda>techCountAtGridX maxGridX.
     fst (fold (\<lambda>x (gridXToCumulativeTechs, cumulative).
                  let cumulative = cumulative + orZero (map_of techCountAtGridX x)
                  in (AList.update x cumulative gridXToCumulativeTechs, cumulative))
            (map real [0 ..< nat \<lfloor>maxGridX\<rfloor> + 1]) ([], 0)))"

text \<open>The body of \<open>buildTechProgressData\<close> below its cache check.\<close>

definition computeTechProgressData :: "Technology list \<Rightarrow> TechProgressData" where
  "computeTechProgressData technologies =
     (\<lambda>(techToGridX, techCountAtGridX, gridXToTechNames, maxGridX).
          \<lparr>techToGridX = techToGridX,
           gridXToCumulativeTechs = cumulativeTechs techCountAtGridX maxGridX,
           totalTechs = real (length technologies),
           maxGridX = maxGridX,
           gridXToTechNames = gridXToTechNames\<rparr>)
       (fold countTech technologies ([], [], [], 0))"

text \<open>
  The module variable \<open>cachedTechProgressData\<close> is the state: each function takes it and
  returns it. An object is truthy, so \<open>if (cachedTechProgressData)\<close> asks whether it is set.
\<close>

definition buildTechProgressData ::
  "Technology list \<Rightarrow> TechProgressData option \<Rightarrow> TechProgressData \<times> TechProgressData option"
  where
  "buildTechProgressData technologies cachedTechProgressData =
     (case cachedTechProgressData of
        Some cached \<Rightarrow> (cached, cachedTechProgressData)
      | None \<Rightarrow>
          (let built = computeTechProgressData technologies in (built, Some built)))"

definition clearTechProgressCache :: "TechProgressData option \<Rightarrow> TechProgressData option" where
  "clearTechProgressCache cachedTechProgressData = None"

text \<open>
  \<open>estimateGridXFromBuildingCost\<close>: the closest distance starts at \<open>Infinity\<close>, which is
  \<open>None\<close> here; every distance is below it.
\<close>

definition estimateGridXFromBuildingCost :: "real \<Rightarrow> real" where
  "estimateGridXFromBuildingCost productionCost =
     fst (fold (\<lambda>(gridX, cost) (closestGridX, closestDistance).
                  let distance = \<bar>productionCost - cost\<bar>
                  in if (case closestDistance of None \<Rightarrow> True | Some d \<Rightarrow> distance < d)
                     then (gridX, Some distance)
                     else (closestGridX, closestDistance))
            BUILDING_COST_BY_GRIDX (0, None))"

subsection \<open>Production to GridX correlation\<close>

record ProductionGridXDataPoint =
  productionCost :: real
  gridX :: real
  name :: string

record ProductionGridXCorrelation =
  dataPoints :: "ProductionGridXDataPoint list"
  entityType :: string

text \<open>
  \<open>Array.prototype.sort\<close> is stable, and so is the insertion sort \<open>sort_key\<close>; on keys
  that are numbers the comparator \<open>a.productionCost - b.productionCost\<close> orders by the key.
\<close>

definition buildProductionGridXCorrelation ::
  "ProductionGridXDataPoint list \<Rightarrow> string \<Rightarrow> ProductionGridXCorrelation" where
  "buildProductionGridXCorrelation = (\<lambda>dataPoints entityType.
     let sortedPoints = sort_key ProductionGridXDataPoint.productionCost dataPoints
     in \<lparr>dataPoints = sortedPoints, entityType = entityType\<rparr>)"

text \<open>
  The scan of \<open>getGridXFromProductionCorrelation\<close> holds references to array elements
  and compares them with \<open>!==\<close>. A reference is modelled by the position in the array
  together with the element there; \<open>null\<close> is \<open>None\<close>. The subtractions, the division,
  the multiplication and the addition of the interpolation each round to a double. One
  iteration of the loop:
\<close>

definition scanPoint ::
  "real \<Rightarrow> nat \<times> ProductionGridXDataPoint \<Rightarrow>
   (nat \<times> ProductionGridXDataPoint) option \<times> (nat \<times> ProductionGridXDataPoint) option \<Rightarrow>
   (nat \<times> ProductionGridXDataPoint) option \<times> (nat \<times> ProductionGridXDataPoint) option" where
  "scanPoint = (\<lambda>productionCost point (lowerPoint, upperPoint).
     let lowerPoint =
           (if ProductionGridXDataPoint.productionCost (snd point) \<le> productionCost
            then (case lowerPoint of
                    None \<Rightarrow> Some point
                  | Some l \<Rightarrow>
                      if ProductionGridXDataPoint.productionCost (snd point)
                           > ProductionGridXDataPoint.productionCost (snd l)
                      then Some point else lowerPoint)
            else lowerPoint);
         upperPoint =
           (if ProductionGridXDataPoint.productionCost (snd point) \<ge> productionCost
            then (case upperPoint of
                    None \<Rightarrow> Some point
                  | Some u \<Rightarrow>
                      if ProductionGridXDataPoint.productionCost (snd point)
                           < ProductionGridXDataPoint.productionCost (snd u)
                      then Some point else upperPoint)
            else upperPoint)
     in (lowerPoint, upperPoint))"

definition scanPoints ::
  "real \<Rightarrow> ProductionGridXDataPoint list \<Rightarrow>
   (nat \<times> ProductionGridXDataPoint) option \<times> (nat \<times> ProductionGridXDataPoint) option" where
  "scanPoints c ps = fold (scanPoint c) (enumerate 0 ps) (None, None)"

definition getGridXFromProductionCorrelation ::
  "ProductionGridXCorrelation \<Rightarrow> real \<Rightarrow> real" where
  "getGridXFromProductionCorrelation = (\<lambda>correlation productionCost.
     let dataPoints = dataPoints correlation
     in if length dataPoints = 0 then estimateGridXFromBuildingCost productionCost
        else (case scanPoints productionCost dataPoints of
                (Some (i, lowerPoint), Some (j, upperPoint)) \<Rightarrow>
                  if i \<noteq> j
                  then (let t = roundDouble
                                 (roundDouble (productionCost
                                    - ProductionGridXDataPoint.productionCost lowerPoint)
                                  / roundDouble
                                      (ProductionGridXDataPoint.productionCost upperPoint
                                        - ProductionGridXDataPoint.productionCost lowerPoint))
                        in roundDouble
                             (gridX lowerPoint
                               + roundDouble
                                   (t * roundDouble (gridX upperPoint - gridX lowerPoint))))
                  else gridX lowerPoint
              | (Some (i, lowerPoint), None) \<Rightarrow> gridX lowerPoint
              | (None, Some (j, upperPoint)) \<Rightarrow> gridX upperPoint
              | (None, None) \<Rightarrow> estimateGridXFromBuildingCost productionCost))"

subsection \<open>What the scan finds\<close>

text \<open>
  Position \<open>i\<close> is the lower bound of cost \<open>c\<close> in \<open>ps\<close> when its point has the greatest
  cost that is at most \<open>c\<close> and is the first in the array with that cost; the upper
  bound is the first point with the least cost that is at least \<open>c\<close>.
\<close>

abbreviation (input) cost :: "ProductionGridXDataPoint \<Rightarrow> real" where
  "cost \<equiv> ProductionGridXDataPoint.productionCost"

definition lowerAt :: "ProductionGridXDataPoint list \<Rightarrow> real \<Rightarrow> nat \<Rightarrow> bool" where
  "lowerAt ps c i \<longleftrightarrow>
     i < length ps \<and> cost (ps ! i) \<le> c \<and>
     (\<forall>q\<in>set ps. cost q \<le> c \<longrightarrow> cost q \<le> cost (ps ! i)) \<and>
     (\<forall>k<i. cost (ps ! k) \<noteq> cost (ps ! i))"

definition upperAt :: "ProductionGridXDataPoint list \<Rightarrow> real \<Rightarrow> nat \<Rightarrow> bool" where
  "upperAt ps c j \<longleftrightarrow>
     j < length ps \<and> c \<le> cost (ps ! j) \<and>
     (\<forall>q\<in>set ps. c \<le> cost q \<longrightarrow> cost (ps ! j) \<le> cost q) \<and>
     (\<forall>k<j. cost (ps ! k) \<noteq> cost (ps ! j))"


text \<open>The interpolated value between the bounds \<open>(cl, gl)\<close> and \<open>(cu, gu)\<close> at cost \<open>c\<close>.\<close>

abbreviation (input) interpolated :: "real \<Rightarrow> real \<Rightarrow> real \<Rightarrow> real \<Rightarrow> real \<Rightarrow> real" where
  "interpolated cl gl cu gu c \<equiv>
     roundDouble (gl + roundDouble
       (roundDouble (roundDouble (c - cl) / roundDouble (cu - cl)) * roundDouble (gu - gl)))"

subsection \<open>Sample data\<close>

definition techA :: Technology where
  "techA = \<lparr>Type = ''TECH_AGRICULTURE'', Name = ''Agriculture'', GridX = 0\<rparr>"

definition techB :: Technology where
  "techB = \<lparr>Type = ''TECH_POTTERY'', Name = ''Pottery'', GridX = 1\<rparr>"

definition sample300 :: ProductionGridXDataPoint where
  "sample300 = \<lparr>productionCost = 300, gridX = 5, ProductionGridXDataPoint.name = ''a''\<rparr>"

definition sample600 :: ProductionGridXDataPoint where
  "sample600 = \<lparr>productionCost = 600, gridX = 8, ProductionGridXDataPoint.name = ''b''\<rparr>"

text \<open>
  Two samples with fractional values: the doubles written \<open>0.3\<close> and \<open>0.9\<close> are
  \<open>5404319552844595 / 2^54\<close> and \<open>8106479329266893 / 2^53\<close>.
\<close>

definition sampleLow :: ProductionGridXDataPoint where
  "sampleLow =
     \<lparr>productionCost = 5404319552844595 / 18014398509481984,
      gridX = 5404319552844595 / 18014398509481984,
      ProductionGridXDataPoint.name = ''low''\<rparr>"

definition sampleHigh :: ProductionGridXDataPoint where
  "sampleHigh =
     \<lparr>productionCost = 1, gridX = 8106479329266893 / 9007199254740992,
      ProductionGridXDataPoint.name = ''high''\<rparr>"


section \<open>Truncating arithmetic\<close>

lemma Math_floor_of_int [simp]: "Math_floor (of_int n) = of_int n"
  by (simp add: Math_floor_def)

lemma Math_floor_numeral [simp]: "Math_floor (numeral k) = numeral k"
  by (simp add: Math_floor_def)

lemma Math_floor_zero [simp]: "Math_floor 0 = 0"
  by (simp add: Math_floor_def)

lemma Math_floor_divide_numeral [simp]:
  "Math_floor (numeral a / numeral b) = of_int (numeral a div numeral b)"
  by (simp add: Math_floor_def)

lemma Math_floor_Ints: "Math_floor x \<in> \<int>"
  by (simp add: Math_floor_def)

lemma Math_floor_id: "x \<in> \<int> \<Longrightarrow> Math_floor x = x"
  by (auto simp: Math_floor_def elim: Ints_cases)

lemma Math_floor_unchanged: "x \<in> \<int> \<Longrightarrow> Math_floor (x * 100 / 100) = x"
  by (simp add: Math_floor_id)

text \<open>
  The floor of a rational power, decided by integer powers: \<open>n\<close> is the floor of
  \<open>x\<close> to the \<open>p/q\<close> when \<open>n^q \<le> x^p < (n+1)^q\<close>.
\<close>

lemma Math_floor_powr_rat:
  assumes x: "0 < x" and q: "0 < q" and n: "0 \<le> n"
    and lo: "of_int n ^ q \<le> x ^ p" and hi: "x ^ p < (of_int n + 1) ^ q"
  shows "Math_floor (x powr (real p / real q)) = of_int n"
proof -
  define y where "y = x powr (real p / real q)"
  have y0: "0 \<le> y" by (simp add: y_def)
  have "y ^ q = x powr (real p / real q * real q)"
    unfolding y_def using x by (simp add: powr_powr flip: powr_realpow')
  also have "\<dots> = x ^ p" using x q by (simp add: powr_realpow)
  finally have yq: "y ^ q = x ^ p" .
  have "of_int n \<le> y"
  proof (rule ccontr)
    assume "\<not> of_int n \<le> y"
    then have "y < of_int n" by simp
    then have "y ^ q < of_int n ^ q" using y0 q by (simp add: power_strict_mono)
    with lo yq show False by simp
  qed
  moreover have "y < of_int n + 1"
  proof (rule ccontr)
    assume "\<not> y < of_int n + 1"
    then have "of_int n + 1 \<le> y" by simp
    moreover have "(0::real) \<le> of_int n + 1" using n by simp
    ultimately have "(of_int n + 1) ^ q \<le> y ^ q" by (simp add: power_mono)
    with hi yq show False by simp
  qed
  ultimately have "\<lfloor>y\<rfloor> = n" by (simp add: floor_unique)
  then show ?thesis by (simp add: Math_floor_def y_def)
qed

lemma floor_pow_6000: "Math_floor (6000 powr (17 / 25)) = 370"
  using Math_floor_powr_rat [of 6000 25 370 17] by simp

lemma floor_pow_54000: "Math_floor (54000 powr (17 / 25)) = 1652"
  using Math_floor_powr_rat [of 54000 25 1652 17] by simp



section \<open>Rounding to doubles\<close>

lemma roundHalfEven_of_int [simp]: "roundHalfEven (of_int n) = n"
  by (simp add: roundHalfEven_def)

lemma roundHalfEven_bounds: "\<lfloor>y\<rfloor> \<le> roundHalfEven y" "roundHalfEven y \<le> \<lfloor>y\<rfloor> + 1"
  by (simp_all add: roundHalfEven_def Let_def)

lemma roundHalfEven_mono:
  assumes "x \<le> y"
  shows "roundHalfEven x \<le> roundHalfEven y"
proof (cases "\<lfloor>x\<rfloor> = \<lfloor>y\<rfloor>")
  case True
  then show ?thesis using assms by (auto simp: roundHalfEven_def Let_def)
next
  case False
  then have "\<lfloor>x\<rfloor> < \<lfloor>y\<rfloor>" using floor_mono [OF assms] by simp
  then have "roundHalfEven x \<le> \<lfloor>y\<rfloor>" using roundHalfEven_bounds(2) [of x] by simp
  then show ?thesis using roundHalfEven_bounds(1) [of y] by simp
qed

lemma roundHalfEven_minus: "roundHalfEven (- y) = - roundHalfEven y"
proof (cases "y \<in> \<int>")
  case True
  then obtain n where "y = of_int n" by (auto elim: Ints_cases)
  then show ?thesis by (simp flip: of_int_minus)
next
  case False
  then have ne: "y \<noteq> of_int \<lfloor>y\<rfloor>" by (metis Ints_of_int)
  then have f: "\<lfloor>- y\<rfloor> = - \<lfloor>y\<rfloor> - 1"
    by (simp add: floor_minus ceiling_altdef)
  have "of_int \<lfloor>y\<rfloor> \<le> y" "y < of_int \<lfloor>y\<rfloor> + 1" by linarith+
  then have d: "0 < y - of_int \<lfloor>y\<rfloor>" "y - of_int \<lfloor>y\<rfloor> < 1"
    using ne by linarith+
  show ?thesis
    using d unfolding roundHalfEven_def Let_def f
    by (auto simp: algebra_simps)
qed

lemma roundDouble_zero [simp]: "roundDouble 0 = 0"
  by (simp add: roundDouble_def)

lemma roundDouble_minus: "roundDouble (- x) = - roundDouble x"
  by (simp add: roundDouble_def Let_def roundHalfEven_minus)

text \<open>A positive number lies in the binade of its exponent.\<close>

lemma binade:
  assumes "0 < x"
  shows "2 powr of_int \<lfloor>log 2 x\<rfloor> \<le> x" "x < 2 powr (of_int \<lfloor>log 2 x\<rfloor> + 1)"
  using floor_log_eq_powr_iff [of x 2 "\<lfloor>log 2 x\<rfloor>"] assms by simp_all

lemma roundDouble_eval:
  assumes "0 < x" "2 powr of_int e \<le> x" "x < 2 powr (of_int e + 1)"
  shows "roundDouble x =
         of_int (roundHalfEven (x / 2 powr of_int (e - 52))) * 2 powr of_int (e - 52)"
proof -
  have "\<lfloor>log 2 x\<rfloor> = e"
    using floor_log_eq_powr_iff [of x 2 e] assms by simp
  then show ?thesis using assms(1) by (simp add: roundDouble_def Let_def)
qed

text \<open>Rounding stays within the closed binade.\<close>

lemma roundDouble_binade:
  assumes "0 < x" "2 powr of_int e \<le> x" "x < 2 powr (of_int e + 1)"
  shows "2 powr of_int e \<le> roundDouble x" "roundDouble x \<le> 2 powr (of_int e + 1)"
proof -
  define u :: real where "u = 2 powr of_int (e - 52)"
  have u: "0 < u" by (simp add: u_def)
  have lo: "2 powr of_int e = of_int (2 ^ 52) * u"
    by (simp add: u_def powr_diff)
  have hi: "2 powr (of_int e + 1) = of_int (2 ^ 53) * u"
    by (simp add: u_def powr_diff powr_add)
  have r: "roundDouble x = of_int (roundHalfEven (x / u)) * u"
    unfolding u_def by (rule roundDouble_eval [OF assms])
  have "of_int (2 ^ 52) \<le> x / u" using assms(2) u by (simp add: lo pos_le_divide_eq)
  then have "roundHalfEven (of_int (2 ^ 52)) \<le> roundHalfEven (x / u)"
    by (rule roundHalfEven_mono)
  then have "(2 ^ 52 :: int) \<le> roundHalfEven (x / u)" by (simp only: roundHalfEven_of_int)
  then have "of_int (2 ^ 52) * u \<le> of_int (roundHalfEven (x / u)) * u"
    using u by (intro mult_right_mono) (simp_all only: of_int_le_iff less_imp_le)
  then show "2 powr of_int e \<le> roundDouble x" by (simp only: lo r)
  have "x / u \<le> of_int (2 ^ 53)" using assms(3) u by (simp add: hi pos_divide_le_eq)
  then have "roundHalfEven (x / u) \<le> roundHalfEven (of_int (2 ^ 53))"
    by (rule roundHalfEven_mono)
  then have "roundHalfEven (x / u) \<le> (2 ^ 53 :: int)" by (simp only: roundHalfEven_of_int)
  then have "of_int (roundHalfEven (x / u)) * u \<le> of_int (2 ^ 53) * u"
    using u by (intro mult_right_mono) (simp_all only: of_int_le_iff less_imp_le)
  then show "roundDouble x \<le> 2 powr (of_int e + 1)" by (simp only: hi r)
qed

lemma roundDouble_pos:
  assumes x: "0 < x"
  shows "0 < roundDouble x"
proof -
  have "0 < 2 powr (of_int \<lfloor>log 2 x\<rfloor> :: real)" by simp
  also have "\<dots> \<le> roundDouble x"
    using roundDouble_binade(1) [OF x binade [OF x]] .
  finally show ?thesis .
qed

lemma roundDouble_mono_pos:
  assumes "0 < x" "x \<le> y"
  shows "roundDouble x \<le> roundDouble y"
proof -
  have y: "0 < y" using assms by simp
  define ex where "ex = \<lfloor>log 2 x\<rfloor>"
  define ey where "ey = \<lfloor>log 2 y\<rfloor>"
  have le: "ex \<le> ey"
    unfolding ex_def ey_def using assms by (intro floor_mono) simp
  note bx = binade [OF assms(1), folded ex_def]
  note by' = binade [OF y, folded ey_def]
  show ?thesis
  proof (cases "ex = ey")
    case True
    have "x / 2 powr of_int (ey - 52) \<le> y / 2 powr of_int (ey - 52)"
      using assms(2) by (simp add: divide_right_mono)
    then have "roundHalfEven (x / 2 powr of_int (ey - 52))
        \<le> roundHalfEven (y / 2 powr of_int (ey - 52))"
      by (rule roundHalfEven_mono)
    then have "of_int (roundHalfEven (x / 2 powr of_int (ey - 52)))
          * (2::real) powr of_int (ey - 52)
        \<le> of_int (roundHalfEven (y / 2 powr of_int (ey - 52))) * 2 powr of_int (ey - 52)"
      by (intro mult_right_mono) simp_all
    then show ?thesis
      using roundDouble_eval [OF assms(1) bx] roundDouble_eval [OF y by'] True by simp
  next
    case False
    then have "ex + 1 \<le> ey" using le by simp
    then have "real_of_int (ex + 1) \<le> real_of_int ey" by (simp only: of_int_le_iff)
    then have "real_of_int ex + 1 \<le> real_of_int ey" by simp
    then have mid: "(2::real) powr (of_int ex + 1) \<le> 2 powr of_int ey"
      by (intro powr_mono) simp_all
    have left: "roundDouble x \<le> 2 powr (of_int ex + 1)"
      by (rule roundDouble_binade(2) [OF assms(1) bx])
    have right: "2 powr of_int ey \<le> roundDouble y"
      by (rule roundDouble_binade(1) [OF y by'])
    show ?thesis by (rule order_trans [OF left order_trans [OF mid right]])
  qed
qed

text \<open>Rounding is monotone, which is what the bounds of the interpolation rest on.\<close>

lemma roundDouble_mono:
  assumes "x \<le> y"
  shows "roundDouble x \<le> roundDouble y"
proof -
  consider "0 < x" | "x \<le> 0" "0 \<le> y" | "y < 0" by linarith
  then show ?thesis
  proof cases
    case 1
    then show ?thesis using assms by (rule roundDouble_mono_pos)
  next
    case 2
    have "roundDouble x \<le> 0"
    proof (cases "x = 0")
      case False
      with 2 have "0 < - x" by simp
      then have "0 < roundDouble (- x)" by (rule roundDouble_pos)
      then show ?thesis by (simp add: roundDouble_minus)
    qed simp
    moreover have "0 \<le> roundDouble y"
    proof (cases "y = 0")
      case False
      with 2 have "0 < y" by simp
      then show ?thesis using roundDouble_pos [of y] by simp
    qed simp
    ultimately show ?thesis by simp
  next
    case 3
    then have "0 < - y" "- y \<le> - x" using assms by simp_all
    then have "roundDouble (- y) \<le> roundDouble (- x)" by (rule roundDouble_mono_pos)
    then show ?thesis by (simp add: roundDouble_minus)
  qed
qed

lemma roundDouble_nonneg: "0 \<le> x \<Longrightarrow> 0 \<le> roundDouble x"
  using roundDouble_mono [of 0 x] by simp

text \<open>
  A number whose quotient by the unit of its binade is an integer is a double; so is
  every integer below \<open>2^53\<close> in magnitude.
\<close>

lemma roundDouble_exact:
  assumes "0 < x" "2 powr of_int e \<le> x" "x < 2 powr (of_int e + 1)"
    and "x / 2 powr of_int (e - 52) = of_int n"
  shows "roundDouble x = x"
proof -
  define u :: real where "u = 2 powr of_int (e - 52)"
  have u: "u \<noteq> 0" by (simp add: u_def)
  have xn: "x / u = of_int n" using assms(4) by (simp only: u_def)
  have "roundDouble x = of_int (roundHalfEven (x / u)) * u"
    unfolding u_def by (rule roundDouble_eval [OF assms(1-3)])
  also have "\<dots> = of_int n * u" by (simp only: xn roundHalfEven_of_int)
  also have "\<dots> = x / u * u" by (simp only: xn)
  also have "\<dots> = x" using u by simp
  finally show ?thesis .
qed

lemma roundDouble_of_int_pos:
  assumes "0 < n" "n < 2 ^ 53"
  shows "roundDouble (of_int n) = of_int n"
proof -
  define e where "e = \<lfloor>log 2 (of_int n)\<rfloor>"
  have n: "0 < (of_int n :: real)" using assms(1) by simp
  note b = binade [OF n, folded e_def]
  have "(of_int n :: real) < of_int (2 ^ 53)" using assms(2) by (simp only: of_int_less_iff)
  also have "\<dots> = 2 powr of_int 53" by simp
  finally have "(of_int n :: real) < 2 powr of_int 53" .
  with b(1) have "(2::real) powr of_int e < 2 powr of_int 53"
    by (rule le_less_trans)
  then have "real_of_int e < real_of_int 53" by (rule powr_less_cancel) simp
  then have "e < 53" by (simp only: of_int_less_iff)
  then have k: "0 \<le> 52 - e" by simp
  have "(2::real) powr of_int (e - 52) = 2 powr (- of_int (52 - e))" by simp
  also have "\<dots> = inverse (2 powr of_int (52 - e))" by (rule powr_minus)
  also have "(2::real) powr of_int (52 - e) = 2 ^ nat (52 - e)"
    using k by (simp only: powr_real_of_int) simp
  finally have u: "(2::real) powr of_int (e - 52) = inverse (2 ^ nat (52 - e))" .
  have "of_int n / 2 powr of_int (e - 52) = (of_int (n * 2 ^ nat (52 - e)) :: real)"
    by (simp only: u) (simp add: divide_inverse)
  then show ?thesis by (rule roundDouble_exact [OF n b])
qed

lemma roundDouble_of_int:
  assumes "\<bar>n\<bar> < 2 ^ 53"
  shows "roundDouble (of_int n) = of_int n"
proof -
  consider "0 < n" | "n = 0" | "n < 0" by linarith
  then show ?thesis
  proof cases
    case 1
    then show ?thesis using assms by (intro roundDouble_of_int_pos) simp_all
  next
    case 2
    then show ?thesis by simp
  next
    case 3
    then have "roundDouble (of_int (- n)) = of_int (- n)"
      using assms by (intro roundDouble_of_int_pos) simp_all
    then show ?thesis by (simp add: roundDouble_minus)
  qed
qed

lemma roundDouble_one [simp]: "roundDouble 1 = 1"
  using roundDouble_of_int [of 1] by simp

text \<open>Integer columns below \<open>2^52\<close> in magnitude and their differences are doubles.\<close>

lemma integer_columns_are_doubles:
  assumes "\<bar>m\<bar> < 2 ^ 52" "\<bar>n\<bar> < 2 ^ 52"
  shows "roundDouble (of_int n) = of_int n"
    and "roundDouble (of_int n - of_int m) = of_int n - of_int m"
proof -
  show "roundDouble (of_int n) = of_int n"
    using assms(2) by (intro roundDouble_of_int) simp
  have "\<bar>n - m\<bar> < 2 ^ 53" using assms by simp
  then have "roundDouble (of_int (n - m)) = of_int (n - m)" by (rule roundDouble_of_int)
  then show "roundDouble (of_int n - of_int m) = of_int n - of_int m" by simp
qed

text \<open>The values the sample lookups pass through.\<close>

lemma roundDouble_small_integers:
  "roundDouble 3 = 3" "roundDouble 5 = 5" "roundDouble 8 = 8"
  "roundDouble 150 = 150" "roundDouble 300 = 300"
  using roundDouble_of_int [of 3] roundDouble_of_int [of 5] roundDouble_of_int [of 8]
    roundDouble_of_int [of 150] roundDouble_of_int [of 300]
  by simp_all

lemma roundDouble_half: "roundDouble (1 / 2) = 1 / 2"
  by (rule roundDouble_exact [where e = "- 1" and n = "2 ^ 52"])
    (simp_all add: powr_neg_numeral)

lemma roundDouble_three_halves: "roundDouble (3 / 2) = 3 / 2"
  by (rule roundDouble_exact [where e = 0 and n = "3 * 2 ^ 51"])
    (simp_all add: powr_neg_numeral)

lemma roundDouble_thirteen_halves: "roundDouble (13 / 2) = 13 / 2"
  by (rule roundDouble_exact [where e = 2 and n = "13 * 2 ^ 49"])
    (simp_all add: powr_neg_numeral)

text \<open>
  The roundings of the lookup at cost \<open>1 - 2^-53\<close> between \<open>sampleLow\<close> and \<open>sampleHigh\<close>:
  both differences of costs round to the double \<open>0.7\<close>, the difference of columns rounds
  up to \<open>0.6000000000000001\<close>, and the sum rounds up to \<open>0.9000000000000001\<close>.
\<close>

lemma roundDouble_cost_difference_query:
  "roundDouble (12610078956637387 / 18014398509481984)
   = 3152519739159347 / 4503599627370496"
  by (subst roundDouble_eval [where e = "- 1"])
    (simp_all add: powr_neg_numeral roundHalfEven_def)

lemma roundDouble_cost_difference_bounds:
  "roundDouble (12610078956637389 / 18014398509481984)
   = 3152519739159347 / 4503599627370496"
  by (subst roundDouble_eval [where e = "- 1"])
    (simp_all add: powr_neg_numeral roundHalfEven_def)

lemma roundDouble_column_difference:
  "roundDouble (10808639105689191 / 18014398509481984)
   = 1351079888211149 / 2251799813685248"
  by (subst roundDouble_eval [where e = "- 1"])
    (simp_all add: powr_neg_numeral roundHalfEven_def)

lemma roundDouble_column_step:
  "roundDouble (1351079888211149 / 2251799813685248)
   = 1351079888211149 / 2251799813685248"
  by (subst roundDouble_eval [where e = "- 1"])
    (simp_all add: powr_neg_numeral roundHalfEven_def)

lemma roundDouble_column_sum:
  "roundDouble (16212958658533787 / 18014398509481984)
   = 4053239664633447 / 4503599627370496"
  by (subst roundDouble_eval [where e = "- 1"])
    (simp_all add: powr_neg_numeral roundHalfEven_def)

text \<open>The sample values and the query cost are doubles.\<close>

lemma sample_values_are_doubles:
  "roundDouble (5404319552844595 / 18014398509481984) = 5404319552844595 / 18014398509481984"
  "roundDouble (8106479329266893 / 9007199254740992) = 8106479329266893 / 9007199254740992"
  "roundDouble (9007199254740991 / 9007199254740992) = 9007199254740991 / 9007199254740992"
  by (subst roundDouble_eval [where e = "- 2"],
      simp_all add: powr_neg_numeral roundHalfEven_def)
    (subst roundDouble_eval [where e = "- 1"],
      simp_all add: powr_neg_numeral roundHalfEven_def)+

section \<open>The base cost\<close>

lemma base_nonpositive: "p \<le> 0 \<Longrightarrow> getPurchaseCostFromProduction p ctx hm c = Some 0"
  by (simp add: getPurchaseCostFromProduction_def)

lemma base_Ints:
  "getPurchaseCostFromProduction p ctx hm c = Some r \<Longrightarrow> r \<in> \<int> \<and> 0 \<le> r"
  by (auto simp: getPurchaseCostFromProduction_def Let_def max_def
      Math_floor_Ints bind_eq_Some_conv split: if_splits)

lemma spec_base_eq:
  "spec_baseCostFromProduction p ctx s c = getPurchaseCostFromProduction p ctx s c"
  by (simp add: spec_baseCostFromProduction_def getPurchaseCostFromProduction_def Let_def)

text \<open>The base cost is a number whenever the power is taken of a positive base.\<close>

lemma base_defined:
  "0 < GOLD_PURCHASE_GOLD_PER_PRODUCTION c \<Longrightarrow>
   \<exists>r. getPurchaseCostFromProduction p ctx hm c = Some r"
  by (simp add: getPurchaseCostFromProduction_def Math_pow_def Let_def zero_less_mult_iff)

lemma base_200:
  "getPurchaseCostFromProduction 200 createDefaultGameContext 0 GOLD_PURCHASE_CONSTANTS_VP
   = Some 370"
  by (simp add: getPurchaseCostFromProduction_def GOLD_PURCHASE_CONSTANTS_VP_def Math_pow_def
      floor_pow_6000 createDefaultGameContext_def GAMESPEED_STANDARD_def)

lemma base_1800_stacking:
  "getPurchaseCostFromProduction 1800 createDefaultGameContext (- 20)
     GOLD_PURCHASE_CONSTANTS_VP = Some 1321"
  by (simp add: getPurchaseCostFromProduction_def GOLD_PURCHASE_CONSTANTS_VP_def Math_pow_def
      floor_pow_54000 createDefaultGameContext_def GAMESPEED_STANDARD_def)

lemma base_1800_merged:
  "getPurchaseCostFromProduction 1800 createDefaultGameContext (- 40)
     GOLD_PURCHASE_CONSTANTS_VP = Some 991"
  by (simp add: getPurchaseCostFromProduction_def GOLD_PURCHASE_CONSTANTS_VP_def Math_pow_def
      floor_pow_54000 createDefaultGameContext_def GAMESPEED_STANDARD_def)

lemma floorToDivisor_zero: "d \<noteq> 0 \<Longrightarrow> floorToDivisor 0 d = Some 0"
  by (simp add: floorToDivisor_def)

lemma VP_divisor [simp]: "GOLD_PURCHASE_VISIBLE_DIVISOR GOLD_PURCHASE_CONSTANTS_VP = 10"
  by (simp add: GOLD_PURCHASE_CONSTANTS_VP_def)

section \<open>Monotonicity of the base cost and the gold to production ratio\<close>














section \<open>Shape of the purchase costs\<close>








text \<open>
  With a positive \<open>goldPerProduction\<close> and a divisor other than zero every purchase cost
  is a number.
\<close>

lemma unit_defined:
  assumes "0 < GOLD_PURCHASE_GOLD_PER_PRODUCTION
             (orDefault (UnitPurchaseCostOptions.constants uo) GOLD_PURCHASE_CONSTANTS_VP)"
    and "GOLD_PURCHASE_VISIBLE_DIVISOR
             (orDefault (UnitPurchaseCostOptions.constants uo) GOLD_PURCHASE_CONSTANTS_VP) \<noteq> 0"
  shows "\<exists>r. getUnitPurchaseCost p ctx uo = Some r"
proof -
  obtain b where "getPurchaseCostFromProduction p ctx
      (orDefault (UnitPurchaseCostOptions.hurryModifier uo) 0)
      (orDefault (UnitPurchaseCostOptions.constants uo) GOLD_PURCHASE_CONSTANTS_VP) = Some b"
    using base_defined [OF assms(1)] by blast
  then show ?thesis using assms(2)
    by (simp add: getUnitPurchaseCost_def Let_def floorToDivisor_def)
qed

lemma building_defined:
  assumes "0 < GOLD_PURCHASE_GOLD_PER_PRODUCTION
             (orDefault (BuildingPurchaseCostOptions.constants bo) GOLD_PURCHASE_CONSTANTS_VP)"
    and "GOLD_PURCHASE_VISIBLE_DIVISOR
             (orDefault (BuildingPurchaseCostOptions.constants bo) GOLD_PURCHASE_CONSTANTS_VP) \<noteq> 0"
  shows "\<exists>r. getBuildingPurchaseCost p ctx bo = Some r"
proof -
  obtain b where "getPurchaseCostFromProduction p ctx
      (orDefault (BuildingPurchaseCostOptions.hurryModifier bo) 0)
      (orDefault (BuildingPurchaseCostOptions.constants bo) GOLD_PURCHASE_CONSTANTS_VP) = Some b"
    using base_defined [OF assms(1)] by blast
  then show ?thesis using assms(2)
    by (simp add: getBuildingPurchaseCost_def Let_def floorToDivisor_def)
qed

lemma project_defined:
  assumes "0 < GOLD_PURCHASE_GOLD_PER_PRODUCTION cs"
    and "GOLD_PURCHASE_VISIBLE_DIVISOR cs \<noteq> 0"
  shows "\<exists>r. getProjectPurchaseCost p ctx hm cs = Some r"
proof -
  obtain b where "getPurchaseCostFromProduction p ctx hm cs = Some b"
    using base_defined [OF assms(1)] by blast
  then show ?thesis using assms(2)
    by (simp add: getProjectPurchaseCost_def floorToDivisor_def)
qed

text \<open>
  The order of the stages matters. The regression anchor (production 1800, progress 66,
  investment) with the two modifiers of \<open>-20\<close> merged into one stacking modifier of \<open>-40\<close>
  costs \<open>720\<close>; with the intrinsic modifier as its own later stage it costs \<open>770\<close>.
\<close>

lemma merged_modifiers_differ:
  "getBuildingPurchaseCost 1800 createDefaultGameContext
     (emptyBuildingOptions\<lparr>buildingHurryCostModifier := Some 0,
        BuildingPurchaseCostOptions.hurryModifier := Some (- 40),
        BuildingPurchaseCostOptions.techProgress := Some 66,
        isInvestment := Some True\<rparr>) = Some 720"
  by (simp add: getBuildingPurchaseCost_def emptyBuildingOptions_def orDefault_def
      base_1800_merged floorToDivisor_def)


section \<open>The correlation lookup\<close>

lemma scanPoints_Nil [simp]: "scanPoints c [] = (None, None)"
  by (simp add: scanPoints_def)

lemma scanPoints_snoc:
  "scanPoints c (ps @ [x]) = scanPoint c (length ps, x) (scanPoints c ps)"
  by (simp add: scanPoints_def enumerate_append_eq)

lemma fst_scanPoint:
  "fst (scanPoint c (n, x) (lo, up)) =
     (if cost x \<le> c
      then (case lo of None \<Rightarrow> Some (n, x)
            | Some l \<Rightarrow> if cost x > cost (snd l) then Some (n, x) else lo)
      else lo)"
  by (simp add: scanPoint_def Let_def split: option.splits)

lemma snd_scanPoint:
  "snd (scanPoint c (n, x) (lo, up)) =
     (if cost x \<ge> c
      then (case up of None \<Rightarrow> Some (n, x)
            | Some u \<Rightarrow> if cost x < cost (snd u) then Some (n, x) else up)
      else up)"
  by (simp add: scanPoint_def Let_def split: option.splits)

lemma lowerAt_snoc_new:
  assumes "cost x \<le> c" "\<forall>q\<in>set ps. cost q \<le> c \<longrightarrow> cost q < cost x"
  shows "lowerAt (ps @ [x]) c (length ps)"
  using assms unfolding lowerAt_def
  by (auto simp: nth_append dest!: nth_mem)

lemma lowerAt_snoc_keep:
  assumes "lowerAt ps c i" "c < cost x \<or> cost x \<le> cost (ps ! i)"
  shows "lowerAt (ps @ [x]) c i"
  using assms unfolding lowerAt_def
  by (auto simp: nth_append)

lemma upperAt_snoc_new:
  assumes "c \<le> cost x" "\<forall>q\<in>set ps. c \<le> cost q \<longrightarrow> cost x < cost q"
  shows "upperAt (ps @ [x]) c (length ps)"
  using assms unfolding upperAt_def
  by (auto simp: nth_append dest!: nth_mem)

lemma upperAt_snoc_keep:
  assumes "upperAt ps c j" "cost x < c \<or> cost (ps ! j) \<le> cost x"
  shows "upperAt (ps @ [x]) c j"
  using assms unfolding upperAt_def
  by (auto simp: nth_append)

lemma scan_lower:
  "(case fst (scanPoints c ps) of
      None \<Rightarrow> \<forall>q\<in>set ps. c < cost q
    | Some (i, l) \<Rightarrow> l = ps ! i \<and> lowerAt ps c i)"
proof (induction ps rule: rev_induct)
  case Nil
  then show ?case by simp
next
  case (snoc x ps)
  obtain lo up where s: "scanPoints c ps = (lo, up)" by (cases "scanPoints c ps")
  show ?case
  proof (cases lo)
    case None
    with snoc s have all: "\<forall>q\<in>set ps. c < cost q" by simp
    show ?thesis
    proof (cases "cost x \<le> c")
      case True
      then have "lowerAt (ps @ [x]) c (length ps)"
        using all by (intro lowerAt_snoc_new) auto
      then show ?thesis using s None True by (simp add: scanPoints_snoc fst_scanPoint)
    next
      case False
      then show ?thesis using s None all by (auto simp: scanPoints_snoc fst_scanPoint)
    qed
  next
    case (Some a)
    obtain i l where a: "a = (i, l)" by (cases a)
    with snoc s Some have l: "l = ps ! i" and low: "lowerAt ps c i" by simp_all
    have i: "i < length ps" using low by (simp add: lowerAt_def)
    show ?thesis
    proof (cases "cost x \<le> c \<and> cost x > cost l")
      case True
      then have "lowerAt (ps @ [x]) c (length ps)"
        using low l by (intro lowerAt_snoc_new) (auto simp: lowerAt_def)
      then show ?thesis using s Some a True by (simp add: scanPoints_snoc fst_scanPoint)
    next
      case False
      then have "lowerAt (ps @ [x]) c i"
        using low l by (intro lowerAt_snoc_keep) auto
      then show ?thesis using s Some a False l i
        by (auto simp: scanPoints_snoc fst_scanPoint nth_append)
    qed
  qed
qed

lemma scan_upper:
  "(case snd (scanPoints c ps) of
      None \<Rightarrow> \<forall>q\<in>set ps. cost q < c
    | Some (j, u) \<Rightarrow> u = ps ! j \<and> upperAt ps c j)"
proof (induction ps rule: rev_induct)
  case Nil
  then show ?case by simp
next
  case (snoc x ps)
  obtain lo up where s: "scanPoints c ps = (lo, up)" by (cases "scanPoints c ps")
  show ?case
  proof (cases up)
    case None
    with snoc s have all: "\<forall>q\<in>set ps. cost q < c" by simp
    show ?thesis
    proof (cases "c \<le> cost x")
      case True
      then have "upperAt (ps @ [x]) c (length ps)"
        using all by (intro upperAt_snoc_new) auto
      then show ?thesis using s None True by (simp add: scanPoints_snoc snd_scanPoint)
    next
      case False
      then show ?thesis using s None all by (auto simp: scanPoints_snoc snd_scanPoint)
    qed
  next
    case (Some a)
    obtain j u where a: "a = (j, u)" by (cases a)
    with snoc s Some have u: "u = ps ! j" and upp: "upperAt ps c j" by simp_all
    have j: "j < length ps" using upp by (simp add: upperAt_def)
    show ?thesis
    proof (cases "c \<le> cost x \<and> cost x < cost u")
      case True
      then have "upperAt (ps @ [x]) c (length ps)"
        using upp u by (intro upperAt_snoc_new) (auto simp: upperAt_def)
      then show ?thesis using s Some a True by (simp add: scanPoints_snoc snd_scanPoint)
    next
      case False
      then have "upperAt (ps @ [x]) c j"
        using upp u by (intro upperAt_snoc_keep) auto
      then show ?thesis using s Some a False u j
        by (auto simp: scanPoints_snoc snd_scanPoint nth_append)
    qed
  qed
qed

lemma first_unique:
  assumes "\<forall>k<i. cost (ps ! k) \<noteq> cost (ps ! i)" "\<forall>k<j. cost (ps ! k) \<noteq> cost (ps ! j)"
    "cost (ps ! i) = cost (ps ! j)"
  shows "i = j"
  using assms by (metis linorder_neqE_nat)

lemma lowerAt_mem: "lowerAt ps c i \<Longrightarrow> ps ! i \<in> set ps"
  by (simp add: lowerAt_def)

lemma upperAt_mem: "upperAt ps c j \<Longrightarrow> ps ! j \<in> set ps"
  by (simp add: upperAt_def)

lemma lowerAt_unique: "lowerAt ps c i \<Longrightarrow> lowerAt ps c i' \<Longrightarrow> i = i'"
  unfolding lowerAt_def by (intro first_unique[of i ps i']) (auto intro: antisym)

lemma upperAt_unique: "upperAt ps c j \<Longrightarrow> upperAt ps c j' \<Longrightarrow> j = j'"
  unfolding upperAt_def by (intro first_unique[of j ps j']) (auto intro: antisym)

lemma lower_upper_same:
  "lowerAt ps c i \<Longrightarrow> upperAt ps c' j \<Longrightarrow> cost (ps ! i) = cost (ps ! j) \<Longrightarrow> i = j"
  unfolding lowerAt_def upperAt_def by (intro first_unique[of i ps j]) auto

lemma lower_lower_same:
  "lowerAt ps c i \<Longrightarrow> lowerAt ps c' i' \<Longrightarrow> cost (ps ! i) = cost (ps ! i') \<Longrightarrow> i = i'"
  unfolding lowerAt_def by (intro first_unique[of i ps i']) auto

lemma upper_upper_same:
  "upperAt ps c j \<Longrightarrow> upperAt ps c' j' \<Longrightarrow> cost (ps ! j) = cost (ps ! j') \<Longrightarrow> j = j'"
  unfolding upperAt_def by (intro first_unique[of j ps j']) auto

lemma lookup_cases:
  assumes ne: "ps \<noteq> []" and dp: "dataPoints corr = ps"
  obtains
    (below) j where "upperAt ps c j" "\<forall>q\<in>set ps. c < cost q"
      "getGridXFromProductionCorrelation corr c = gridX (ps ! j)"
  | (above) i where "lowerAt ps c i" "\<forall>q\<in>set ps. cost q < c"
      "getGridXFromProductionCorrelation corr c = gridX (ps ! i)"
  | (exact) i where "lowerAt ps c i" "upperAt ps c i"
      "getGridXFromProductionCorrelation corr c = gridX (ps ! i)"
  | (between) i j where "lowerAt ps c i" "upperAt ps c j" "i \<noteq> j"
      "getGridXFromProductionCorrelation corr c =
         interpolated (cost (ps ! i)) (gridX (ps ! i)) (cost (ps ! j)) (gridX (ps ! j)) c"
proof -
  obtain lo up where s: "scanPoints c ps = (lo, up)" by (cases "scanPoints c ps")
  have L: "case lo of None \<Rightarrow> \<forall>q\<in>set ps. c < cost q | Some (i, l) \<Rightarrow> l = ps ! i \<and> lowerAt ps c i"
    using scan_lower [where c = c and ps = ps] s by simp
  have U: "case up of None \<Rightarrow> \<forall>q\<in>set ps. cost q < c | Some (j, u) \<Rightarrow> u = ps ! j \<and> upperAt ps c j"
    using scan_upper [where c = c and ps = ps] s by simp
  show thesis
  proof (cases lo)
    case None
    note lo = this
    show ?thesis
    proof (cases up)
      case None
      with L U lo have "\<forall>q\<in>set ps. c < cost q" "\<forall>q\<in>set ps. cost q < c" by simp_all
      with ne show ?thesis by (cases ps) auto
    next
      case (Some b)
      obtain j u where b: "b = (j, u)" by (cases b)
      with U Some have u: "u = ps ! j" "upperAt ps c j" by simp_all
      moreover from L lo have "\<forall>q\<in>set ps. c < cost q" by simp
      moreover have "getGridXFromProductionCorrelation corr c = gridX (ps ! j)"
        using ne dp s lo Some b u by (simp add: getGridXFromProductionCorrelation_def)
      ultimately show ?thesis by (rule_tac below)
    qed
  next
    case (Some a)
    obtain i l where a: "a = (i, l)" by (cases a)
    with L Some have l: "l = ps ! i" "lowerAt ps c i" by simp_all
    show ?thesis
    proof (cases up)
      case None
      with U have "\<forall>q\<in>set ps. cost q < c" by simp
      moreover have "getGridXFromProductionCorrelation corr c = gridX (ps ! i)"
        using ne dp s Some None a l by (simp add: getGridXFromProductionCorrelation_def)
      ultimately show ?thesis using l by (rule_tac above)
    next
      case (Some b)
      obtain j u where b: "b = (j, u)" by (cases b)
      with U Some have u: "u = ps ! j" "upperAt ps c j" by simp_all
      show ?thesis
      proof (cases "i = j")
        case True
        have "getGridXFromProductionCorrelation corr c = gridX (ps ! i)"
          using ne dp s \<open>lo = Some a\<close> Some a b l u True
          by (simp add: getGridXFromProductionCorrelation_def)
        then show ?thesis using l u True by (rule_tac exact) auto
      next
        case False
        have "getGridXFromProductionCorrelation corr c =
           interpolated (cost (ps ! i)) (gridX (ps ! i)) (cost (ps ! j)) (gridX (ps ! j)) c"
          using ne dp s \<open>lo = Some a\<close> Some a b l u False
          by (simp add: getGridXFromProductionCorrelation_def Let_def)
        then show ?thesis using l u False by (rule_tac between) auto
      qed
    qed
  qed
qed

text \<open>
  The interpolation never divides by zero: distinct bounds have distinct costs, and the
  rounded difference of two distinct costs is positive.
\<close>

lemma bounds_distinct_costs:
  assumes "lowerAt ps c i" "upperAt ps c j" "i \<noteq> j"
  shows "cost (ps ! i) < cost (ps ! j)"
proof -
  have "cost (ps ! i) \<le> c" "c \<le> cost (ps ! j)"
    using assms by (simp_all add: lowerAt_def upperAt_def)
  moreover have "cost (ps ! i) \<noteq> cost (ps ! j)"
    using assms lower_upper_same by blast
  ultimately show ?thesis by simp
qed

lemma divisor_positive:
  assumes "lowerAt ps c i" "upperAt ps c j" "i \<noteq> j"
  shows "0 < roundDouble (cost (ps ! j) - cost (ps ! i))"
  using bounds_distinct_costs [OF assms] by (intro roundDouble_pos) simp

text \<open>
  The interpolated value is never below the lower column, and it is monotone in the
  cost. It stays at or below the upper column when the difference of the two columns is
  a double, so that its rounding adds nothing.
\<close>

lemma interp_fraction:
  assumes "cl \<le> c" "cl \<le> cu"
  shows "0 \<le> roundDouble (roundDouble (c - cl) / roundDouble (cu - cl))"
proof -
  have "0 \<le> roundDouble (c - cl)" "0 \<le> roundDouble (cu - cl)"
    using assms by (simp_all add: roundDouble_nonneg)
  then have "0 \<le> roundDouble (c - cl) / roundDouble (cu - cl)" by simp
  then show ?thesis by (rule roundDouble_nonneg)
qed

lemma interp_fraction_le_one:
  assumes "cl \<le> c" "c \<le> cu"
  shows "roundDouble (roundDouble (c - cl) / roundDouble (cu - cl)) \<le> 1"
proof -
  have a: "0 \<le> roundDouble (c - cl)" using assms by (simp add: roundDouble_nonneg)
  have ab: "roundDouble (c - cl) \<le> roundDouble (cu - cl)"
    using assms by (intro roundDouble_mono) simp
  have "roundDouble (c - cl) / roundDouble (cu - cl) \<le> 1"
  proof (cases "roundDouble (cu - cl) = 0")
    case True
    then show ?thesis by simp
  next
    case False
    then have "0 < roundDouble (cu - cl)" using a ab by simp
    then show ?thesis using ab by simp
  qed
  then have "roundDouble (roundDouble (c - cl) / roundDouble (cu - cl)) \<le> roundDouble 1"
    by (rule roundDouble_mono)
  then show ?thesis by simp
qed

lemma interp_lower:
  assumes "cl \<le> c" "cl \<le> cu" "gl \<le> gu" "roundDouble gl = gl"
  shows "gl \<le> interpolated cl gl cu gu c"
proof -
  have "0 \<le> roundDouble (gu - gl)" using assms(3) by (simp add: roundDouble_nonneg)
  then have "0 \<le> roundDouble (roundDouble (c - cl) / roundDouble (cu - cl))
      * roundDouble (gu - gl)"
    using interp_fraction [OF assms(1,2)] by simp
  then have "0 \<le> roundDouble (roundDouble (roundDouble (c - cl) / roundDouble (cu - cl))
      * roundDouble (gu - gl))"
    by (rule roundDouble_nonneg)
  then have "roundDouble gl \<le> interpolated cl gl cu gu c"
    by (intro roundDouble_mono) simp
  then show ?thesis by (simp only: assms(4))
qed

lemma interp_upper:
  assumes "cl \<le> c" "c \<le> cu" "gl \<le> gu" "roundDouble gu = gu"
    and "roundDouble (gu - gl) = gu - gl"
  shows "interpolated cl gl cu gu c \<le> gu"
proof -
  define t where "t = roundDouble (roundDouble (c - cl) / roundDouble (cu - cl))"
  have t: "0 \<le> t" "t \<le> 1"
    unfolding t_def using assms(1,2) interp_fraction [of cl c cu]
      interp_fraction_le_one [OF assms(1,2)] by simp_all
  have "t * (gu - gl) \<le> 1 * (gu - gl)" using t assms(3) by (intro mult_right_mono) simp_all
  then have "roundDouble (t * (gu - gl)) \<le> roundDouble (gu - gl)"
    by (intro roundDouble_mono) simp
  then have "gl + roundDouble (t * (gu - gl)) \<le> gu" by (simp add: assms(5))
  then have "roundDouble (gl + roundDouble (t * (gu - gl))) \<le> roundDouble gu"
    by (rule roundDouble_mono)
  then show ?thesis by (simp only: assms(4,5) t_def)
qed

lemma interp_mono:
  assumes "c1 \<le> c2" "cl \<le> cu" "gl \<le> gu"
  shows "interpolated cl gl cu gu c1 \<le> interpolated cl gl cu gu c2"
proof -
  have b: "0 \<le> roundDouble (cu - cl)" using assms(2) by (simp add: roundDouble_nonneg)
  have d: "0 \<le> roundDouble (gu - gl)" using assms(3) by (simp add: roundDouble_nonneg)
  have "roundDouble (c1 - cl) \<le> roundDouble (c2 - cl)"
    using assms(1) by (intro roundDouble_mono) simp
  then have "roundDouble (c1 - cl) / roundDouble (cu - cl)
      \<le> roundDouble (c2 - cl) / roundDouble (cu - cl)"
    using b by (rule divide_right_mono)
  then have "roundDouble (roundDouble (c1 - cl) / roundDouble (cu - cl))
      \<le> roundDouble (roundDouble (c2 - cl) / roundDouble (cu - cl))"
    by (rule roundDouble_mono)
  then have "roundDouble (roundDouble (c1 - cl) / roundDouble (cu - cl)) * roundDouble (gu - gl)
      \<le> roundDouble (roundDouble (c2 - cl) / roundDouble (cu - cl)) * roundDouble (gu - gl)"
    using d by (rule mult_right_mono)
  then have "roundDouble (roundDouble (roundDouble (c1 - cl) / roundDouble (cu - cl))
        * roundDouble (gu - gl))
      \<le> roundDouble (roundDouble (roundDouble (c2 - cl) / roundDouble (cu - cl))
        * roundDouble (gu - gl))"
    by (rule roundDouble_mono)
  then show ?thesis by (intro roundDouble_mono) simp
qed

lemma lowerAt_le: "lowerAt ps c i \<Longrightarrow> cost (ps ! i) \<le> c"
  by (simp add: lowerAt_def)

lemma upperAt_ge: "upperAt ps c j \<Longrightarrow> c \<le> cost (ps ! j)"
  by (simp add: upperAt_def)

lemma lowerAt_max: "lowerAt ps c i \<Longrightarrow> q \<in> set ps \<Longrightarrow> cost q \<le> c \<Longrightarrow> cost q \<le> cost (ps ! i)"
  by (simp add: lowerAt_def)

lemma upperAt_min: "upperAt ps c j \<Longrightarrow> q \<in> set ps \<Longrightarrow> c \<le> cost q \<Longrightarrow> cost (ps ! j) \<le> cost q"
  by (simp add: upperAt_def)

lemma not_all_above:
  assumes "lowerAt ps c i" "\<forall>q\<in>set ps. c < cost q"
  shows False
proof -
  have "c < cost (ps ! i)" using assms(2) lowerAt_mem [OF assms(1)] by blast
  then show False using lowerAt_le [OF assms(1)] by simp
qed

lemma not_all_below:
  assumes "upperAt ps c j" "\<forall>q\<in>set ps. cost q < c"
  shows False
proof -
  have "cost (ps ! j) < c" using assms(2) upperAt_mem [OF assms(1)] by blast
  then show False using upperAt_ge [OF assms(1)] by simp
qed

lemma le_upper:
  assumes ne: "ps \<noteq> []" and dp: "dataPoints (corr :: ProductionGridXCorrelation) = ps"
    and M: "\<forall>a\<in>set ps. \<forall>b\<in>set ps. cost a < cost b \<longrightarrow> gridX a \<le> gridX b"
    and R1: "\<forall>a\<in>set ps. roundDouble (gridX a) = gridX a"
    and R2: "\<forall>a\<in>set ps. \<forall>b\<in>set ps. cost a < cost b \<longrightarrow>
               roundDouble (gridX b - gridX a) = gridX b - gridX a"
    and up: "upperAt ps c j"
  shows "getGridXFromProductionCorrelation corr c \<le> gridX (ps ! j)"
  using ne dp
proof (cases rule: lookup_cases [where c = c])
  case (below j')
  have "j' = j" by (rule upperAt_unique [OF below(1) up])
  then show ?thesis using below(3) by simp
next
  case (above i)
  then show ?thesis using not_all_below [OF up] by simp
next
  case (exact i)
  have "i = j" by (rule upperAt_unique [OF exact(2) up])
  then show ?thesis using exact(3) by simp
next
  case (between i j')
  have j: "j' = j" by (rule upperAt_unique [OF between(2) up])
  have lt: "cost (ps ! i) < cost (ps ! j)"
    using bounds_distinct_costs [OF between(1,2,3)] j by simp
  have g: "gridX (ps ! i) \<le> gridX (ps ! j)"
    using M lowerAt_mem [OF between(1)] upperAt_mem [OF up] lt by blast
  have r1: "roundDouble (gridX (ps ! j)) = gridX (ps ! j)"
    using R1 upperAt_mem [OF up] by blast
  have r2: "roundDouble (gridX (ps ! j) - gridX (ps ! i)) = gridX (ps ! j) - gridX (ps ! i)"
    using R2 lowerAt_mem [OF between(1)] upperAt_mem [OF up] lt by blast
  have "interpolated (cost (ps ! i)) (gridX (ps ! i)) (cost (ps ! j)) (gridX (ps ! j)) c
      \<le> gridX (ps ! j)"
    by (rule interp_upper [OF lowerAt_le [OF between(1)] upperAt_ge [OF up] g r1 r2])
  then show ?thesis using between(4) j by simp
qed

lemma ge_lower:
  assumes ne: "ps \<noteq> []" and dp: "dataPoints (corr :: ProductionGridXCorrelation) = ps"
    and M: "\<forall>a\<in>set ps. \<forall>b\<in>set ps. cost a < cost b \<longrightarrow> gridX a \<le> gridX b"
    and R1: "\<forall>a\<in>set ps. roundDouble (gridX a) = gridX a"
    and lo: "lowerAt ps c i"
  shows "gridX (ps ! i) \<le> getGridXFromProductionCorrelation corr c"
  using ne dp
proof (cases rule: lookup_cases [where c = c])
  case (below j)
  then show ?thesis using not_all_above [OF lo] by simp
next
  case (above i')
  have "i' = i" by (rule lowerAt_unique [OF above(1) lo])
  then show ?thesis using above(3) by simp
next
  case (exact i')
  have "i' = i" by (rule lowerAt_unique [OF exact(1) lo])
  then show ?thesis using exact(3) by simp
next
  case (between i' j)
  have i: "i' = i" by (rule lowerAt_unique [OF between(1) lo])
  have lt: "cost (ps ! i) < cost (ps ! j)"
    using bounds_distinct_costs [OF between(1,2,3)] i by simp
  have g: "gridX (ps ! i) \<le> gridX (ps ! j)"
    using M lowerAt_mem [OF lo] upperAt_mem [OF between(2)] lt by blast
  have r1: "roundDouble (gridX (ps ! i)) = gridX (ps ! i)"
    using R1 lowerAt_mem [OF lo] by blast
  have "gridX (ps ! i)
      \<le> interpolated (cost (ps ! i)) (gridX (ps ! i)) (cost (ps ! j)) (gridX (ps ! j)) c"
    by (rule interp_lower [OF lowerAt_le [OF lo] less_imp_le [OF lt] g r1])
  then show ?thesis using between(4) i by simp
qed

lemma exists_upper:
  assumes ne: "ps \<noteq> []" and dp: "dataPoints (corr :: ProductionGridXCorrelation) = ps"
    and q: "q \<in> set ps" "c \<le> cost q"
  shows "\<exists>j. upperAt ps c j"
  using ne dp
proof (cases rule: lookup_cases [where c = c])
  case (below j)
  then show ?thesis by (intro exI)
next
  case (above i)
  have "cost q < c" using above(2) q(1) by blast
  then show ?thesis using q(2) by simp
next
  case (exact i)
  then show ?thesis by (intro exI)
next
  case (between i j)
  then show ?thesis by (intro exI)
qed

lemma exists_lower:
  assumes ne: "ps \<noteq> []" and dp: "dataPoints (corr :: ProductionGridXCorrelation) = ps"
    and q: "q \<in> set ps" "cost q \<le> c"
  shows "\<exists>i. lowerAt ps c i"
  using ne dp
proof (cases rule: lookup_cases [where c = c])
  case (below j)
  have "c < cost q" using below(2) q(1) by blast
  then show ?thesis using q(2) by simp
next
  case (above i)
  then show ?thesis by (intro exI)
next
  case (exact i)
  then show ?thesis by (intro exI)
next
  case (between i j)
  then show ?thesis by (intro exI)
qed

lemma only_lower:
  assumes ne: "ps \<noteq> []" and dp: "dataPoints (corr :: ProductionGridXCorrelation) = ps"
    and all: "\<forall>q\<in>set ps. cost q < c"
  shows "\<exists>i. lowerAt ps c i \<and> getGridXFromProductionCorrelation corr c = gridX (ps ! i)"
  using ne dp
proof (cases rule: lookup_cases [where c = c])
  case (below j)
  then show ?thesis using not_all_below [OF below(1) all] by simp
next
  case (above i)
  then show ?thesis by (intro exI conjI)
next
  case (exact i)
  then show ?thesis by (intro exI conjI)
next
  case (between i j)
  then show ?thesis using not_all_below [OF between(2) all] by simp
qed

lemma only_upper:
  assumes ne: "ps \<noteq> []" and dp: "dataPoints (corr :: ProductionGridXCorrelation) = ps"
    and all: "\<forall>q\<in>set ps. c < cost q"
  shows "\<exists>j. upperAt ps c j \<and> getGridXFromProductionCorrelation corr c = gridX (ps ! j)"
  using ne dp
proof (cases rule: lookup_cases [where c = c])
  case (below j)
  then show ?thesis by (intro exI conjI)
next
  case (above i)
  then show ?thesis using not_all_above [OF above(1) all] by simp
next
  case (exact i)
  then show ?thesis by (intro exI conjI)
next
  case (between i j)
  then show ?thesis using not_all_above [OF between(1) all] by simp
qed

lemma bracketed:
  assumes ne: "ps \<noteq> []" and dp: "dataPoints (corr :: ProductionGridXCorrelation) = ps"
    and lo: "lowerAt ps c i" and up: "upperAt ps c j" and ij: "i \<noteq> j"
  shows "getGridXFromProductionCorrelation corr c =
         interpolated (cost (ps ! i)) (gridX (ps ! i)) (cost (ps ! j)) (gridX (ps ! j)) c"
  using ne dp
proof (cases rule: lookup_cases [where c = c])
  case (below j')
  then show ?thesis using not_all_above [OF lo] by simp
next
  case (above i')
  then show ?thesis using not_all_below [OF up] by simp
next
  case (exact i')
  have "i' = i" by (rule lowerAt_unique [OF exact(1) lo])
  moreover have "i' = j" by (rule upperAt_unique [OF exact(2) up])
  ultimately show ?thesis using ij by simp
next
  case (between i' j')
  have "i' = i" by (rule lowerAt_unique [OF between(1) lo])
  moreover have "j' = j" by (rule upperAt_unique [OF between(2) up])
  ultimately show ?thesis using between(4) by simp
qed

lemma lookup_monotone:
  assumes ne: "ps \<noteq> []" and dp: "dataPoints (corr :: ProductionGridXCorrelation) = ps"
    and M: "\<forall>a\<in>set ps. \<forall>b\<in>set ps. cost a < cost b \<longrightarrow> gridX a \<le> gridX b"
    and R1: "\<forall>a\<in>set ps. roundDouble (gridX a) = gridX a"
    and R2: "\<forall>a\<in>set ps. \<forall>b\<in>set ps. cost a < cost b \<longrightarrow>
               roundDouble (gridX b - gridX a) = gridX b - gridX a"
    and c: "c1 \<le> c2"
  shows "getGridXFromProductionCorrelation corr c1 \<le> getGridXFromProductionCorrelation corr c2"
proof (cases "\<exists>q\<in>set ps. c1 \<le> cost q")
  case False
  then have a1: "\<forall>q\<in>set ps. cost q < c1" by auto
  then have a2: "\<forall>q\<in>set ps. cost q < c2" using c by auto
  obtain i1 where i1: "lowerAt ps c1 i1"
      "getGridXFromProductionCorrelation corr c1 = gridX (ps ! i1)"
    using only_lower [OF ne dp a1] by blast
  obtain i2 where i2: "lowerAt ps c2 i2"
      "getGridXFromProductionCorrelation corr c2 = gridX (ps ! i2)"
    using only_lower [OF ne dp a2] by blast
  have "cost (ps ! i2) < c1" using a1 lowerAt_mem [OF i2(1)] by blast
  then have "cost (ps ! i2) \<le> cost (ps ! i1)"
    using lowerAt_max [OF i1(1) lowerAt_mem [OF i2(1)]] by simp
  moreover have "cost (ps ! i1) \<le> cost (ps ! i2)"
    using lowerAt_max [OF i2(1) lowerAt_mem [OF i1(1)]] lowerAt_le [OF i1(1)] c by simp
  ultimately have "i1 = i2" using lower_lower_same [OF i1(1) i2(1)] by simp
  then show ?thesis using i1(2) i2(2) by simp
next
  case True
  then obtain q1 where q1: "q1 \<in> set ps" "c1 \<le> cost q1" by blast
  obtain j1 where j1: "upperAt ps c1 j1" using exists_upper [OF ne dp q1] by blast
  note v1 = le_upper [OF ne dp M R1 R2 j1]
  show ?thesis
  proof (cases "\<exists>q\<in>set ps. cost q \<le> c2")
    case False
    then have b2: "\<forall>q\<in>set ps. c2 < cost q" by auto
    then have b1: "\<forall>q\<in>set ps. c1 < cost q" using c by auto
    obtain k1 where k1: "upperAt ps c1 k1"
        "getGridXFromProductionCorrelation corr c1 = gridX (ps ! k1)"
      using only_upper [OF ne dp b1] by blast
    obtain k2 where k2: "upperAt ps c2 k2"
        "getGridXFromProductionCorrelation corr c2 = gridX (ps ! k2)"
      using only_upper [OF ne dp b2] by blast
    have "c2 < cost (ps ! k1)" using b2 upperAt_mem [OF k1(1)] by blast
    then have "cost (ps ! k2) \<le> cost (ps ! k1)"
      using upperAt_min [OF k2(1) upperAt_mem [OF k1(1)]] by simp
    moreover have "cost (ps ! k1) \<le> cost (ps ! k2)"
      using upperAt_min [OF k1(1) upperAt_mem [OF k2(1)]] upperAt_ge [OF k2(1)] c by simp
    ultimately have "k1 = k2" using upper_upper_same [OF k1(1) k2(1)] by simp
    then show ?thesis using k1(2) k2(2) by simp
  next
    case True
    then obtain q2 where q2: "q2 \<in> set ps" "cost q2 \<le> c2" by blast
    obtain i2 where i2: "lowerAt ps c2 i2" using exists_lower [OF ne dp q2] by blast
    note v2 = ge_lower [OF ne dp M R1 i2]
    have m1: "ps ! j1 \<in> set ps" by (rule upperAt_mem [OF j1])
    have m2: "ps ! i2 \<in> set ps" by (rule lowerAt_mem [OF i2])
    show ?thesis
    proof (cases "cost (ps ! j1) \<le> cost (ps ! i2)")
      case True
      have "gridX (ps ! j1) \<le> gridX (ps ! i2)"
      proof (cases "cost (ps ! j1) = cost (ps ! i2)")
        case True
        then have "i2 = j1" using lower_upper_same [OF i2 j1] by simp
        then show ?thesis by simp
      next
        case False
        with True have "cost (ps ! j1) < cost (ps ! i2)" by simp
        then show ?thesis using M m1 m2 by blast
      qed
      then show ?thesis using v1 v2 by simp
    next
      case False
      then have lt: "cost (ps ! i2) < cost (ps ! j1)" by simp
      have below1: "cost (ps ! i2) < c1"
      proof (rule ccontr)
        assume "\<not> cost (ps ! i2) < c1"
        then have "c1 \<le> cost (ps ! i2)" by simp
        then have "cost (ps ! j1) \<le> cost (ps ! i2)" by (rule upperAt_min [OF j1 m2])
        with lt show False by simp
      qed
      have above2: "c2 < cost (ps ! j1)"
      proof (rule ccontr)
        assume "\<not> c2 < cost (ps ! j1)"
        then have "cost (ps ! j1) \<le> c2" by simp
        then have "cost (ps ! j1) \<le> cost (ps ! i2)" by (rule lowerAt_max [OF i2 m1])
        with lt show False by simp
      qed
      have "cost (ps ! i2) \<le> c1" using below1 by simp
      then obtain i1 where i1: "lowerAt ps c1 i1"
        using exists_lower [OF ne dp m2] by blast
      have "c2 \<le> cost (ps ! j1)" using above2 by simp
      then obtain j2 where j2: "upperAt ps c2 j2"
        using exists_upper [OF ne dp m1] by blast
      have "cost (ps ! i2) \<le> cost (ps ! i1)"
        using lowerAt_max [OF i1 m2] below1 by simp
      moreover have "cost (ps ! i1) \<le> cost (ps ! i2)"
        using lowerAt_max [OF i2 lowerAt_mem [OF i1]] lowerAt_le [OF i1] c by simp
      ultimately have ii: "i1 = i2" using lower_lower_same [OF i1 i2] by simp
      have "cost (ps ! j2) \<le> cost (ps ! j1)"
        using upperAt_min [OF j2 m1] above2 by simp
      moreover have "cost (ps ! j1) \<le> cost (ps ! j2)"
        using upperAt_min [OF j1 upperAt_mem [OF j2]] upperAt_ge [OF j2] c by simp
      ultimately have jj: "j2 = j1" using upper_upper_same [OF j2 j1] by simp
      have ij: "i2 \<noteq> j1" using lt by auto
      have g: "gridX (ps ! i2) \<le> gridX (ps ! j1)" using M m1 m2 lt by blast
      have e1: "getGridXFromProductionCorrelation corr c1 =
            interpolated (cost (ps ! i2)) (gridX (ps ! i2)) (cost (ps ! j1)) (gridX (ps ! j1)) c1"
        using bracketed [OF ne dp i1 j1] ii ij by simp
      have e2: "getGridXFromProductionCorrelation corr c2 =
            interpolated (cost (ps ! i2)) (gridX (ps ! i2)) (cost (ps ! j1)) (gridX (ps ! j1)) c2"
        using bracketed [OF ne dp i2 j2] jj ij by simp
      show ?thesis unfolding e1 e2 by (rule interp_mono [OF c less_imp_le [OF lt] g])
    qed
  qed
qed

lemma lookup_exact:
  assumes ne: "ps \<noteq> []" and dp: "dataPoints (corr :: ProductionGridXCorrelation) = ps"
    and inj: "inj_on cost (set ps)" and s: "s \<in> set ps"
  shows "getGridXFromProductionCorrelation corr (cost s) = gridX s"
  using ne dp
proof (cases rule: lookup_cases [where c = "cost s"])
  case (below j)
  then have "cost s < cost s" using s by blast
  then show ?thesis by simp
next
  case (above i)
  then have "cost s < cost s" using s by blast
  then show ?thesis by simp
next
  case (exact i)
  have "cost s \<le> cost (ps ! i)" using lowerAt_max [OF exact(1) s] by simp
  then have "cost (ps ! i) = cost s" using lowerAt_le [OF exact(1)] by simp
  then have "ps ! i = s" using inj s lowerAt_mem [OF exact(1)] by (simp add: inj_on_def)
  then show ?thesis using exact(3) by simp
next
  case (between i j)
  have "cost s \<le> cost (ps ! i)" using lowerAt_max [OF between(1) s] by simp
  moreover have "cost (ps ! j) \<le> cost s" using upperAt_min [OF between(2) s] by simp
  ultimately show ?thesis using bounds_distinct_costs [OF between(1,2,3)] by simp
qed


text \<open>At the cost of a sample both bounds of the scan are that sample, at one position.\<close>

lemma scan_exact:
  assumes inj: "inj_on cost (set ps)" and s: "s \<in> set ps"
  shows "\<exists>i. scanPoints (cost s) ps = (Some (i, s), Some (i, s))"
proof -
  obtain lo up where sc: "scanPoints (cost s) ps = (lo, up)"
    by (cases "scanPoints (cost s) ps")
  have L: "case lo of None \<Rightarrow> \<forall>q\<in>set ps. cost s < cost q
      | Some (i, l) \<Rightarrow> l = ps ! i \<and> lowerAt ps (cost s) i"
    using scan_lower [where c = "cost s" and ps = ps] sc by simp
  have U: "case up of None \<Rightarrow> \<forall>q\<in>set ps. cost q < cost s
      | Some (j, u) \<Rightarrow> u = ps ! j \<and> upperAt ps (cost s) j"
    using scan_upper [where c = "cost s" and ps = ps] sc by simp
  have "lo \<noteq> None"
  proof
    assume "lo = None"
    with L have "cost s < cost s" using s by auto
    then show False by simp
  qed
  then obtain i l where lo: "lo = Some (i, l)" by (cases lo) auto
  have "up \<noteq> None"
  proof
    assume "up = None"
    with U have "cost s < cost s" using s by auto
    then show False by simp
  qed
  then obtain j u where up: "up = Some (j, u)" by (cases up) auto
  have l: "l = ps ! i" and li: "lowerAt ps (cost s) i" using L lo by simp_all
  have u: "u = ps ! j" and uj: "upperAt ps (cost s) j" using U up by simp_all
  have "cost s \<le> cost (ps ! i)" using lowerAt_max [OF li s] by simp
  then have ci: "cost (ps ! i) = cost s" using lowerAt_le [OF li] by simp
  have "cost (ps ! j) \<le> cost s" using upperAt_min [OF uj s] by simp
  then have cj: "cost (ps ! j) = cost s" using upperAt_ge [OF uj] by simp
  have "i = j" using lower_upper_same [OF li uj] ci cj by simp
  moreover have "ps ! i = s" using inj ci s lowerAt_mem [OF li] by (simp add: inj_on_def)
  ultimately have "scanPoints (cost s) ps = (Some (i, s), Some (i, s))"
    using sc lo up l u by simp
  then show ?thesis by (rule exI)
qed

lemma built_samples:
  "buildProductionGridXCorrelation [sample600, sample300] ''unit''
   = \<lparr>dataPoints = [sample300, sample600], entityType = ''unit''\<rparr>"
  by (simp add: buildProductionGridXCorrelation_def sample300_def sample600_def)

lemma lookup_450:
  "getGridXFromProductionCorrelation
     (buildProductionGridXCorrelation [sample600, sample300] ''unit'') 450 = 13 / 2"
  unfolding built_samples
  by (simp add: getGridXFromProductionCorrelation_def scanPoints_def scanPoint_def Let_def
      sample300_def sample600_def roundDouble_small_integers roundDouble_half
      roundDouble_three_halves roundDouble_thirteen_halves)

lemma lookup_700:
  "getGridXFromProductionCorrelation
     (buildProductionGridXCorrelation [sample600, sample300] ''unit'') 700 = 8"
  unfolding built_samples
  by (simp add: getGridXFromProductionCorrelation_def scanPoints_def scanPoint_def Let_def
      sample300_def sample600_def)

lemma built_fraction_samples:
  "buildProductionGridXCorrelation [sampleLow, sampleHigh] ''unit''
   = \<lparr>dataPoints = [sampleLow, sampleHigh], entityType = ''unit''\<rparr>"
  by (simp add: buildProductionGridXCorrelation_def sampleLow_def sampleHigh_def)

lemma lookup_below_one:
  "getGridXFromProductionCorrelation
     (buildProductionGridXCorrelation [sampleLow, sampleHigh] ''unit'')
     (9007199254740991 / 9007199254740992) = 4053239664633447 / 4503599627370496"
  unfolding built_fraction_samples
  by (simp add: getGridXFromProductionCorrelation_def scanPoints_def scanPoint_def Let_def
      sampleLow_def sampleHigh_def roundDouble_cost_difference_query
      roundDouble_cost_difference_bounds roundDouble_column_difference
      roundDouble_column_step roundDouble_column_sum)

lemma lookup_at_one:
  "getGridXFromProductionCorrelation
     (buildProductionGridXCorrelation [sampleLow, sampleHigh] ''unit'') 1
   = 8106479329266893 / 9007199254740992"
  unfolding built_fraction_samples
  by (simp add: getGridXFromProductionCorrelation_def scanPoints_def scanPoint_def Let_def
      sampleLow_def sampleHigh_def)

section \<open>Results on the gold purchase formulas\<close>

text \<open>
  C1. \<open>getBuildingPurchaseCost\<close> with an intrinsic modifier other than \<open>-1\<close> computes
  the stage sequence of the specification in its order: the base cost with the stacking
  hurry modifier inside the base-cost call (where the game speed scales it), then the
  intrinsic modifier as \<open>floor(cost*(100+intrinsic)/100)\<close> on the result of that call, the
  player-wide modifier if nonzero, \<open>floor(progress/3)\<close> as a modifier if tech scaling is
  on and the progress positive, \<open>floor(cost*6/10)\<close> for an investment, \<open>floorToDivisor\<close>
  and \<open>max(divisor, cost)\<close>. It holds for every production cost.
\<close>

theorem building_stage_order:
  assumes "orDefault (buildingHurryCostModifier bo) (- 20) \<noteq> - 1"
  shows "getBuildingPurchaseCost p ctx bo =
         spec_buildingPurchaseCost p ctx
           (orDefault (buildingHurryCostModifier bo) (- 20))
           (orDefault (playerBuildingPurchaseMod bo) 0)
           (orDefault (BuildingPurchaseCostOptions.hurryModifier bo) 0)
           (orDefault (BuildingPurchaseCostOptions.techProgress bo) 0)
           (orDefault (enableTechScaling bo) True)
           (orDefault (isInvestment bo) True)
           (orDefault (BuildingPurchaseCostOptions.constants bo) GOLD_PURCHASE_CONSTANTS_VP)"
proof (cases "getPurchaseCostFromProduction p ctx
           (orDefault (BuildingPurchaseCostOptions.hurryModifier bo) 0)
           (orDefault (BuildingPurchaseCostOptions.constants bo) GOLD_PURCHASE_CONSTANTS_VP)")
  case None
  then show ?thesis using assms
    by (simp add: getBuildingPurchaseCost_def spec_buildingPurchaseCost_def spec_base_eq Let_def)
next
  case (Some r)
  then have "r \<in> \<int>" by (simp add: base_Ints)
  then have "Math_floor (r * 100 / 100) = r" by (rule Math_floor_unchanged)
  then show ?thesis using assms Some
    by (simp add: getBuildingPurchaseCost_def spec_buildingPurchaseCost_def spec_base_eq Let_def
        applyModifier_def)
qed

text \<open>
  The regression anchor of the specification: production 1800, intrinsic modifier -20,
  stacking modifier -20, progress 66, investment. The stacking modifier gives
  \<open>floor(1652*80/100) = 1321\<close> inside the base cost, the intrinsic one
  \<open>floor(1321*80/100) = 1056\<close> after it.
\<close>

theorem building_stage_order_witness:
  "orDefault (buildingHurryCostModifier
      (emptyBuildingOptions\<lparr>buildingHurryCostModifier := Some (- 20),
         BuildingPurchaseCostOptions.hurryModifier := Some (- 20),
         BuildingPurchaseCostOptions.techProgress := Some 66,
         isInvestment := Some True\<rparr>)) (- 20) \<noteq> - 1 \<and>
   getBuildingPurchaseCost 1800 createDefaultGameContext
     (emptyBuildingOptions\<lparr>buildingHurryCostModifier := Some (- 20),
        BuildingPurchaseCostOptions.hurryModifier := Some (- 20),
        BuildingPurchaseCostOptions.techProgress := Some 66,
        isInvestment := Some True\<rparr>) = Some 770"
  using building_stage_order
    [of "emptyBuildingOptions\<lparr>buildingHurryCostModifier := Some (- 20),
           BuildingPurchaseCostOptions.hurryModifier := Some (- 20),
           BuildingPurchaseCostOptions.techProgress := Some 66,
           isInvestment := Some True\<rparr>" 1800 createDefaultGameContext]
  by (simp add: emptyBuildingOptions_def orDefault_def spec_buildingPurchaseCost_def
      spec_base_eq base_1800_stacking applyModifier_def floorToDivisor_def)

text \<open>
  C2. With a per-unit modifier other than \<open>-1\<close>, the VP-adjustments toggle on and a
  progress percentage that is not negative, \<open>getUnitPurchaseCost\<close> is the composition, in
  this order, of the base cost (production times \<open>goldPerProduction\<close>, floor of the power,
  stacking modifier clamped by \<open>max(0,100+m)\<close>, game-speed percent),
  \<open>floor(cost*max(0,100+perUnit)/100)\<close>, the player-wide modifier in the same form
  (skipped if zero), \<open>floor(progress/2)\<close> as a modifier, \<open>floor(cost*8/10)\<close>,
  \<open>floorToDivisor\<close> and \<open>max(divisor, cost)\<close>. It holds for every production cost and
  needs no upper bound on the progress.
\<close>

theorem unit_stage_order:
  assumes "orDefault (hurryCostModifier uo) 0 \<noteq> - 1"
    and "orDefault (enableVPAdjustments uo) True"
    and "0 \<le> orDefault (UnitPurchaseCostOptions.techProgress uo) 0"
  shows "getUnitPurchaseCost p ctx uo =
         spec_unitPurchaseCost p ctx
           (orDefault (hurryCostModifier uo) 0)
           (orDefault (playerUnitPurchaseMod uo) 0)
           (orDefault (UnitPurchaseCostOptions.hurryModifier uo) 0)
           (orDefault (UnitPurchaseCostOptions.techProgress uo) 0)
           (orDefault (UnitPurchaseCostOptions.constants uo) GOLD_PURCHASE_CONSTANTS_VP)"
proof (cases "getPurchaseCostFromProduction p ctx
           (orDefault (UnitPurchaseCostOptions.hurryModifier uo) 0)
           (orDefault (UnitPurchaseCostOptions.constants uo) GOLD_PURCHASE_CONSTANTS_VP)")
  case None
  then show ?thesis using assms
    by (simp add: getUnitPurchaseCost_def spec_unitPurchaseCost_def spec_base_eq Let_def)
next
  case (Some r)
  then have r: "r \<in> \<int>" by (simp add: base_Ints)
  have same: "Math_floor (x * 100 / 100) = x" if "x \<in> \<int>" for x
    using that by (rule Math_floor_unchanged)
  show ?thesis
  proof (cases "orDefault (UnitPurchaseCostOptions.techProgress uo) 0 = 0")
    case True
    then show ?thesis using assms Some same[OF r] same[OF Math_floor_Ints]
      by (simp add: getUnitPurchaseCost_def spec_unitPurchaseCost_def spec_base_eq Let_def
        applyModifier_def)
  next
    case False
    then have "0 < orDefault (UnitPurchaseCostOptions.techProgress uo) 0"
      using assms(3) by simp
    then show ?thesis using assms Some same[OF r]
      by (simp add: getUnitPurchaseCost_def spec_unitPurchaseCost_def spec_base_eq Let_def
        applyModifier_def)
  qed
qed

text \<open>
  Production 200 at progress 50 with the VP constants: \<open>370\<close>, then \<open>floor(370*125/100) =
  462\<close>, \<open>floor(462*8/10) = 369\<close>, floored to \<open>360\<close>.
\<close>

theorem unit_stage_order_witness:
  "orDefault (hurryCostModifier
      (emptyUnitOptions\<lparr>UnitPurchaseCostOptions.techProgress := Some 50\<rparr>)) 0 \<noteq> - 1 \<and>
   orDefault (enableVPAdjustments
      (emptyUnitOptions\<lparr>UnitPurchaseCostOptions.techProgress := Some 50\<rparr>)) True \<and>
   0 \<le> orDefault (UnitPurchaseCostOptions.techProgress
      (emptyUnitOptions\<lparr>UnitPurchaseCostOptions.techProgress := Some 50\<rparr>)) 0 \<and>
   getUnitPurchaseCost 200 createDefaultGameContext
     (emptyUnitOptions\<lparr>UnitPurchaseCostOptions.techProgress := Some 50\<rparr>) = Some 360"
  using unit_stage_order
    [of "emptyUnitOptions\<lparr>UnitPurchaseCostOptions.techProgress := Some 50\<rparr>" 200
        createDefaultGameContext]
  by (simp add: emptyUnitOptions_def orDefault_def spec_unitPurchaseCost_def
      spec_base_eq base_200 applyModifier_def floorToDivisor_def)




text \<open>
  C5 as stated fails: with production \<open>0\<close> and the default options and constants the
  three purchase functions return \<open>10\<close>.
\<close>

theorem nonpositive_production_counterexample:
  "getUnitPurchaseCost 0 createDefaultGameContext emptyUnitOptions \<noteq> Some 0 \<and>
   getBuildingPurchaseCost 0 createDefaultGameContext emptyBuildingOptions \<noteq> Some 0 \<and>
   getProjectPurchaseCost 0 createDefaultGameContext 0 GOLD_PURCHASE_CONSTANTS_VP \<noteq> Some 0"
  by (simp add: getUnitPurchaseCost_def getBuildingPurchaseCost_def getProjectPurchaseCost_def
      emptyUnitOptions_def emptyBuildingOptions_def orDefault_def base_nonpositive
      floorToDivisor_def)


text \<open>
  C5, as amended. For a production that is not positive the base cost
  \<open>getPurchaseCostFromProduction\<close> is \<open>0\<close>; the unit, building and project functions (no
  sentinel modifier, divisor not zero) then return \<open>max(divisor, 0)\<close>, which is the
  visible divisor itself when it is positive, not \<open>0\<close>: their last stage is the minimum
  cost.
\<close>

theorem nonpositive_production:
  assumes "p \<le> 0"
  shows "getPurchaseCostFromProduction p ctx hm cs = Some 0 \<and>
    (GOLD_PURCHASE_VISIBLE_DIVISOR cs \<noteq> 0 \<longrightarrow>
       getProjectPurchaseCost p ctx hm cs = Some (max (GOLD_PURCHASE_VISIBLE_DIVISOR cs) 0)) \<and>
    (orDefault (hurryCostModifier uo) 0 \<noteq> - 1 \<and>
     GOLD_PURCHASE_VISIBLE_DIVISOR
       (orDefault (UnitPurchaseCostOptions.constants uo) GOLD_PURCHASE_CONSTANTS_VP) \<noteq> 0 \<longrightarrow>
       getUnitPurchaseCost p ctx uo =
         Some (max (GOLD_PURCHASE_VISIBLE_DIVISOR
           (orDefault (UnitPurchaseCostOptions.constants uo) GOLD_PURCHASE_CONSTANTS_VP)) 0)) \<and>
    (orDefault (buildingHurryCostModifier bo) (- 20) \<noteq> - 1 \<and>
     GOLD_PURCHASE_VISIBLE_DIVISOR
       (orDefault (BuildingPurchaseCostOptions.constants bo) GOLD_PURCHASE_CONSTANTS_VP) \<noteq> 0 \<longrightarrow>
       getBuildingPurchaseCost p ctx bo =
         Some (max (GOLD_PURCHASE_VISIBLE_DIVISOR
           (orDefault (BuildingPurchaseCostOptions.constants bo) GOLD_PURCHASE_CONSTANTS_VP)) 0))"
  using assms
  by (simp add: base_nonpositive getProjectPurchaseCost_def getUnitPurchaseCost_def
      getBuildingPurchaseCost_def Let_def floorToDivisor_zero)

theorem nonpositive_production_witness:
  "(0::real) \<le> 0 \<and>
   getPurchaseCostFromProduction 0 createDefaultGameContext 0 GOLD_PURCHASE_CONSTANTS_VP = Some 0 \<and>
   getProjectPurchaseCost 0 createDefaultGameContext 0 GOLD_PURCHASE_CONSTANTS_VP = Some 10 \<and>
   getUnitPurchaseCost 0 createDefaultGameContext emptyUnitOptions = Some 10 \<and>
   getBuildingPurchaseCost 0 createDefaultGameContext emptyBuildingOptions = Some 10"
  using nonpositive_production
    [of 0 createDefaultGameContext 0 GOLD_PURCHASE_CONSTANTS_VP emptyUnitOptions
        emptyBuildingOptions]
  by (simp add: emptyUnitOptions_def emptyBuildingOptions_def orDefault_def)

text \<open>
  C4. Whatever the other inputs are, a per-unit hurry-cost modifier of \<open>-1\<close> makes
  \<open>getUnitPurchaseCost\<close> return the sentinel \<open>-1\<close>, and a building hurry-cost modifier
  of \<open>-1\<close> makes \<open>getBuildingPurchaseCost\<close> return \<open>-1\<close>.
\<close>

theorem sentinel_unpurchasable:
  "(hurryCostModifier uo = Some (- 1) \<longrightarrow> getUnitPurchaseCost p ctx uo = Some (- 1)) \<and>
   (buildingHurryCostModifier bo = Some (- 1) \<longrightarrow>
      getBuildingPurchaseCost q ctx' bo = Some (- 1))"
  by (simp add: getUnitPurchaseCost_def getBuildingPurchaseCost_def orDefault_def)

theorem sentinel_unpurchasable_witness:
  "getUnitPurchaseCost 200 createDefaultGameContext
     (emptyUnitOptions\<lparr>hurryCostModifier := Some (- 1)\<rparr>) = Some (- 1) \<and>
   getBuildingPurchaseCost 200 createDefaultGameContext
     (emptyBuildingOptions\<lparr>buildingHurryCostModifier := Some (- 1)\<rparr>) = Some (- 1)"
  using sentinel_unpurchasable
    [of "emptyUnitOptions\<lparr>hurryCostModifier := Some (- 1)\<rparr>" 200 createDefaultGameContext
        "emptyBuildingOptions\<lparr>buildingHurryCostModifier := Some (- 1)\<rparr>" 200
        createDefaultGameContext]
  by (simp add: emptyUnitOptions_def emptyBuildingOptions_def)




section \<open>Results on the hurry modifier total\<close>

lemma inner_fold:
  "fold (\<lambda>m total. if sc = ''all'' \<or> scope m = sc then total + modifier m else total) ms acc
   = acc + (\<Sum>m\<leftarrow>ms. if sc = ''all'' \<or> scope m = sc then modifier m else 0)"
  by (induction ms arbitrary: acc) auto

lemma outer_fold:
  "fold (\<lambda>(sourceType, modifiers) total.
             if sourceType \<notin> E then total
             else fold (\<lambda>m total. if sc = ''all'' \<or> scope m = sc then total + modifier m else total)
                    modifiers total) xs acc
   = acc + (\<Sum>(k, ms)\<leftarrow>xs. if k \<in> E
        then (\<Sum>m\<leftarrow>ms. if sc = ''all'' \<or> scope m = sc then modifier m else 0) else 0)"
  by (induction xs arbitrary: acc) (auto simp: inner_fold)

lemma total_sum:
  "calculateTotalHurryModifier E xs sc =
   (\<Sum>(k, ms)\<leftarrow>xs. if k \<in> E
        then (\<Sum>m\<leftarrow>ms. if sc = ''all'' \<or> scope m = sc then modifier m else 0) else 0)"
  by (simp add: calculateTotalHurryModifier_def outer_fold)

lemma industry_map:
  "getIndustryPolicyModifiers = map (\<lambda>p. (HurryModifierSource.type p, [p])) INDUSTRY_POLICY_MODIFIERS"
  by (simp add: getIndustryPolicyModifiers_def INDUSTRY_POLICY_MODIFIERS_def industryPolicy_def)

text \<open>
  C9 as stated fails for sets that overlap: the union of \<open>{POLICY_COMMERCE}\<close> with itself
  has the total \<open>-5\<close>, the two totals add up to \<open>-10\<close>.
\<close>

theorem total_union_counterexample:
  "calculateTotalHurryModifier ({''POLICY_COMMERCE''} \<union> {''POLICY_COMMERCE''})
     getIndustryPolicyModifiers ''all''
   \<noteq> calculateTotalHurryModifier {''POLICY_COMMERCE''} getIndustryPolicyModifiers ''all''
     + calculateTotalHurryModifier {''POLICY_COMMERCE''} getIndustryPolicyModifiers ''all''"
  by (simp add: calculateTotalHurryModifier_def industry_map INDUSTRY_POLICY_MODIFIERS_def
      industryPolicy_def)

text \<open>
  C9, as amended. For every source index, every two sets \<open>A\<close> and \<open>B\<close> of enabled ids
  and every scope filter (\<open>'all'\<close> among them), the total for \<open>A \<union> B\<close> is the total for
  \<open>A\<close> plus the total for \<open>B\<close> minus the total for \<open>A \<inter> B\<close>: a source enabled in both
  is counted once. For disjoint \<open>A\<close> and \<open>B\<close> the total is additive.
\<close>

theorem total_union:
  "calculateTotalHurryModifier (A \<union> B) allSources sc
     = calculateTotalHurryModifier A allSources sc + calculateTotalHurryModifier B allSources sc
       - calculateTotalHurryModifier (A \<inter> B) allSources sc \<and>
   (A \<inter> B = {} \<longrightarrow>
      calculateTotalHurryModifier (A \<union> B) allSources sc
        = calculateTotalHurryModifier A allSources sc
          + calculateTotalHurryModifier B allSources sc)"
proof -
  have incl: "calculateTotalHurryModifier (A \<union> B) allSources sc
        + calculateTotalHurryModifier (A \<inter> B) allSources sc
      = calculateTotalHurryModifier A allSources sc
        + calculateTotalHurryModifier B allSources sc"
    unfolding total_sum by (induction allSources) auto
  have empty: "calculateTotalHurryModifier {} allSources sc = 0"
    unfolding total_sum by (induction allSources) auto
  show ?thesis using incl empty by auto
qed

theorem total_union_witness:
  "{''POLICY_COMMERCE''} \<inter> {''POLICY_CARAVANS''} = {} \<and>
   calculateTotalHurryModifier ({''POLICY_COMMERCE''} \<union> {''POLICY_CARAVANS''})
     getIndustryPolicyModifiers ''all'' = - 10 \<and>
   calculateTotalHurryModifier {''POLICY_COMMERCE''} getIndustryPolicyModifiers ''all'' = - 5 \<and>
   calculateTotalHurryModifier {''POLICY_CARAVANS''} getIndustryPolicyModifiers ''all'' = - 5"
proof -
  have a: "calculateTotalHurryModifier {''POLICY_COMMERCE''} getIndustryPolicyModifiers ''all''
      = - 5"
    by (simp add: calculateTotalHurryModifier_def industry_map INDUSTRY_POLICY_MODIFIERS_def
        industryPolicy_def)
  have b: "calculateTotalHurryModifier {''POLICY_CARAVANS''} getIndustryPolicyModifiers ''all''
      = - 5"
    by (simp add: calculateTotalHurryModifier_def industry_map INDUSTRY_POLICY_MODIFIERS_def
        industryPolicy_def)
  have d: "{''POLICY_COMMERCE''} \<inter> {''POLICY_CARAVANS''} = ({} :: string set)" by simp
  show ?thesis
    using total_union [of "{''POLICY_COMMERCE''}" "{''POLICY_CARAVANS''}"
        getIndustryPolicyModifiers "''all''"] a b d
    by simp
qed

section \<open>Results on the correlation\<close>

text \<open>
  C6 as stated fails where the branches meet, through the rounding of the interpolation.
  The samples \<open>(0.3, 0.3)\<close> and \<open>(1, 0.9)\<close> have a column that does not decrease as the
  cost increases. At the cost \<open>1 - 2^-53\<close>, the double just below \<open>1\<close>, the interpolation
  returns \<open>0.9000000000000001\<close>; at the cost \<open>1\<close> the exact match returns the stored
  \<open>0.9\<close>, which is smaller.
\<close>

theorem gridX_monotone_counterexample:
  "cost sampleLow < cost sampleHigh \<and> gridX sampleLow \<le> gridX sampleHigh \<and>
   (9007199254740991 / 9007199254740992 :: real) \<le> 1 \<and>
   getGridXFromProductionCorrelation
     (buildProductionGridXCorrelation [sampleLow, sampleHigh] ''unit'')
     (9007199254740991 / 9007199254740992) = 4053239664633447 / 4503599627370496 \<and>
   getGridXFromProductionCorrelation
     (buildProductionGridXCorrelation [sampleLow, sampleHigh] ''unit'') 1
     = 8106479329266893 / 9007199254740992 \<and>
   \<not> getGridXFromProductionCorrelation
       (buildProductionGridXCorrelation [sampleLow, sampleHigh] ''unit'')
       (9007199254740991 / 9007199254740992)
     \<le> getGridXFromProductionCorrelation
       (buildProductionGridXCorrelation [sampleLow, sampleHigh] ''unit'') 1"
  by (simp add: lookup_below_one lookup_at_one) (simp add: sampleLow_def sampleHigh_def)

text \<open>
  C6, as amended. For a correlation built from a non-empty sample list in which a sample
  of greater production cost never has a smaller \<open>gridX\<close>, and in which the \<open>gridX\<close> values
  are doubles whose differences (greater cost minus smaller cost) are doubles as well,
  as they are for the integer columns of the tech tree, the column returned by
  \<open>getGridXFromProductionCorrelation\<close> is monotonic non-decreasing in the queried cost,
  across the exact-match, interpolation and one-sided branches.
\<close>

theorem gridX_monotone:
  assumes "samples \<noteq> []"
    and "\<forall>a\<in>set samples. \<forall>b\<in>set samples.
           cost a < cost b \<longrightarrow> gridX a \<le> gridX b"
    and "\<forall>a\<in>set samples. roundDouble (gridX a) = gridX a"
    and "\<forall>a\<in>set samples. \<forall>b\<in>set samples.
           cost a < cost b \<longrightarrow> roundDouble (gridX b - gridX a) = gridX b - gridX a"
    and "c1 \<le> c2"
  shows "getGridXFromProductionCorrelation (buildProductionGridXCorrelation samples et) c1
       \<le> getGridXFromProductionCorrelation (buildProductionGridXCorrelation samples et) c2"
proof -
  let ?ps = "sort_key cost samples"
  have "?ps \<noteq> []" using assms(1) by (metis length_sort length_0_conv)
  moreover have "dataPoints (buildProductionGridXCorrelation samples et) = ?ps"
    by (simp add: buildProductionGridXCorrelation_def)
  moreover have "\<forall>a\<in>set ?ps. \<forall>b\<in>set ?ps. cost a < cost b \<longrightarrow> gridX a \<le> gridX b"
    using assms(2) by simp
  moreover have "\<forall>a\<in>set ?ps. roundDouble (gridX a) = gridX a"
    using assms(3) by simp
  moreover have "\<forall>a\<in>set ?ps. \<forall>b\<in>set ?ps. cost a < cost b \<longrightarrow>
      roundDouble (gridX b - gridX a) = gridX b - gridX a"
    using assms(4) by simp
  ultimately show ?thesis using assms(5) by (rule lookup_monotone)
qed

text \<open>
  The samples of the specification, \<open>{cost: 300, col: 5}\<close> and \<open>{cost: 600, col: 8}\<close>:
  \<open>6.5\<close> at cost \<open>450\<close>, \<open>8\<close> at cost \<open>700\<close>.
\<close>

theorem gridX_monotone_witness:
  "getGridXFromProductionCorrelation
     (buildProductionGridXCorrelation [sample600, sample300] ''unit'') 450 = 13 / 2 \<and>
   getGridXFromProductionCorrelation
     (buildProductionGridXCorrelation [sample600, sample300] ''unit'') 700 = 8 \<and>
   getGridXFromProductionCorrelation
     (buildProductionGridXCorrelation [sample600, sample300] ''unit'') 450
   \<le> getGridXFromProductionCorrelation
     (buildProductionGridXCorrelation [sample600, sample300] ''unit'') 700"
proof -
  have ne: "[sample600, sample300] \<noteq> []" by simp
  have M: "\<forall>a\<in>set [sample600, sample300]. \<forall>b\<in>set [sample600, sample300].
      cost a < cost b \<longrightarrow> gridX a \<le> gridX b"
    by (simp add: sample300_def sample600_def)
  have R1: "\<forall>a\<in>set [sample600, sample300]. roundDouble (gridX a) = gridX a"
    by (simp add: sample300_def sample600_def roundDouble_small_integers)
  have R2: "\<forall>a\<in>set [sample600, sample300]. \<forall>b\<in>set [sample600, sample300].
      cost a < cost b \<longrightarrow> roundDouble (gridX b - gridX a) = gridX b - gridX a"
    by (simp add: sample300_def sample600_def roundDouble_small_integers)
  have c: "(450::real) \<le> 700" by simp
  show ?thesis
    using gridX_monotone [OF ne M R1 R2 c, of "''unit''"] lookup_450 lookup_700 by simp
qed

text \<open>
  C7. For a correlation built from a non-empty sample list with pairwise distinct
  production costs, a query at the production cost of a sample returns the \<open>gridX\<close>
  stored in that sample; the scan finds that sample as both bounds, at one position, so
  that no interpolation is applied.
\<close>

theorem exact_match:
  assumes "samples \<noteq> []"
    and "distinct (map cost samples)"
    and "s \<in> set samples"
  shows "getGridXFromProductionCorrelation (buildProductionGridXCorrelation samples et)
           (cost s) = gridX s \<and>
         (\<exists>i. scanPoints (cost s) (dataPoints (buildProductionGridXCorrelation samples et))
                = (Some (i, s), Some (i, s)))"
proof -
  let ?ps = "sort_key cost samples"
  have ne: "?ps \<noteq> []" using assms(1) by (metis length_sort length_0_conv)
  have dp: "dataPoints (buildProductionGridXCorrelation samples et) = ?ps"
    by (simp add: buildProductionGridXCorrelation_def)
  have inj: "inj_on cost (set ?ps)" using assms(2) by (simp add: distinct_map)
  have s: "s \<in> set ?ps" using assms(3) by simp
  have "getGridXFromProductionCorrelation (buildProductionGridXCorrelation samples et)
      (cost s) = gridX s"
    using ne dp inj s by (rule lookup_exact)
  moreover have "\<exists>i. scanPoints (cost s) ?ps = (Some (i, s), Some (i, s))"
    using inj s by (rule scan_exact)
  ultimately show ?thesis by (simp only: dp)
qed

theorem exact_match_witness:
  "getGridXFromProductionCorrelation
     (buildProductionGridXCorrelation [sample600, sample300] ''unit'') 300 = 5"
proof -
  have ne: "[sample600, sample300] \<noteq> []" by simp
  have d: "distinct (map cost [sample600, sample300])"
    by (simp add: sample300_def sample600_def)
  have m: "sample300 \<in> set [sample600, sample300]" by simp
  show ?thesis
    using exact_match [OF ne d m, of "''unit''"] by (simp add: sample300_def)
qed

section \<open>Results on the tech progress cache\<close>

lemma computeTechProgressData_techA:
  "computeTechProgressData [techA] =
     \<lparr>techToGridX = [(''TECH_AGRICULTURE'', 0)], gridXToCumulativeTechs = [(0, 1)],
      totalTechs = 1, maxGridX = 0, gridXToTechNames = [(0, [''Agriculture''])]\<rparr>"
  by (simp add: computeTechProgressData_def countTech_def techA_def cumulativeTechs_def
      orZero_def)

lemma computeTechProgressData_three:
  "computeTechProgressData [techA, techB, techB] =
     \<lparr>techToGridX = [(''TECH_AGRICULTURE'', 0), (''TECH_POTTERY'', 1)],
      gridXToCumulativeTechs = [(0, 1), (1, 3)], totalTechs = 3, maxGridX = 1,
      gridXToTechNames = [(0, [''Agriculture'']), (1, [''Pottery'', ''Pottery''])]\<rparr>"
  by (simp add: computeTechProgressData_def countTech_def techA_def techB_def
      cumulativeTechs_def orZero_def upt_rec)

text \<open>
  C10. Once a call of \<open>buildTechProgressData\<close> has returned \<open>d\<close>, every later call returns
  the same \<open>d\<close> and leaves the cache as it is, whatever catalog it is given and however
  many calls \<open>ts\<close> came in between; after \<open>clearTechProgressCache\<close> the next call builds
  from its own argument and caches that.
\<close>

theorem cache_ignores_argument:
  assumes "buildTechProgressData t1 s = (d, s')"
  shows "buildTechProgressData t2 (fold (\<lambda>t c. snd (buildTechProgressData t c)) ts s')
           = (d, s') \<and>
         buildTechProgressData t3 (clearTechProgressCache s')
           = (computeTechProgressData t3, Some (computeTechProgressData t3))"
proof -
  from assms have s': "s' = Some d"
    by (auto simp: buildTechProgressData_def Let_def split: option.splits)
  have "fold (\<lambda>t c. snd (buildTechProgressData t c)) ts (Some d) = Some d"
    by (induction ts) (simp_all add: buildTechProgressData_def)
  then have "buildTechProgressData t2 (fold (\<lambda>t c. snd (buildTechProgressData t c)) ts s')
      = (d, s')"
    by (simp add: s' buildTechProgressData_def)
  moreover have "buildTechProgressData t3 (clearTechProgressCache s')
      = (computeTechProgressData t3, Some (computeTechProgressData t3))"
    by (simp add: buildTechProgressData_def clearTechProgressCache_def Let_def)
  ultimately show ?thesis by simp
qed

text \<open>
  A first build from the catalog \<open>[techA]\<close>; a later call with three technologies still
  reports one technology, and after the reset it reports three.
\<close>

theorem cache_ignores_argument_witness:
  "buildTechProgressData [techA] None
     = (computeTechProgressData [techA], Some (computeTechProgressData [techA])) \<and>
   totalTechs (fst (buildTechProgressData [techA, techB, techB]
      (fold (\<lambda>t c. snd (buildTechProgressData t c)) [[techB], []]
         (Some (computeTechProgressData [techA]))))) = 1 \<and>
   totalTechs (fst (buildTechProgressData [techA, techB, techB]
      (clearTechProgressCache (Some (computeTechProgressData [techA]))))) = 3"
proof -
  have first: "buildTechProgressData [techA] None
      = (computeTechProgressData [techA], Some (computeTechProgressData [techA]))"
    by (simp add: buildTechProgressData_def Let_def)
  show ?thesis
    using first cache_ignores_argument [OF first, of "[techA, techB, techB]" "[[techB], []]"
        "[techA, techB, techB]"]
    by (simp add: computeTechProgressData_techA computeTechProgressData_three)
qed

end
